theory Spec2Isabelle
  imports Complex_Main
begin

section \<open>JavaScript values\<close>

text \<open>
  The values the frontend handles at run time: what \<open>res.json()\<close> parses, what is thrown
  and caught, what is stored in component state. A number is the rational it denotes
  (every finite double is one; \<open>-0\<close> and \<open>0\<close> are both \<open>0\<close> and both falsy). An object is
  the list of its properties, looked up with \<open>map_of\<close>.
\<close>

datatype jsval =
    JUndefined
  | JNull
  | JBool bool
  | JNum rat
  | JStr string
  | JArr "jsval list"
  | JObj "(string \<times> jsval) list"

text \<open>Truthiness, as \<open>!!v\<close>, \<open>if (v)\<close> and \<open>v || w\<close> test it.\<close>

fun truthy :: "jsval \<Rightarrow> bool" where
  "truthy JUndefined = False"
| "truthy JNull = False"
| "truthy (JBool b) = b"
| "truthy (JNum n) = (n \<noteq> 0)"
| "truthy (JStr s) = (s \<noteq> [])"
| "truthy (JArr xs) = True"
| "truthy (JObj ps) = True"

text \<open>\<open>a || b\<close> on values.\<close>

definition js_or :: "jsval \<Rightarrow> jsval \<Rightarrow> jsval" where
  "js_or a b = (if truthy a then a else b)"

text \<open>
  \<open>a || b\<close> on \<open>string | null\<close> (what \<open>Headers.get\<close> and \<open>localStorage.getItem\<close> return):
  \<open>null\<close> and the empty string are falsy.
\<close>

definition truthy_str :: "string option \<Rightarrow> bool" where
  "truthy_str a = (case a of None \<Rightarrow> False | Some s \<Rightarrow> s \<noteq> [])"

definition js_or_str :: "string option \<Rightarrow> string option \<Rightarrow> string option" where
  "js_or_str a b = (if truthy_str a then a else b)"

definition of_str_or_null :: "string option \<Rightarrow> jsval" where
  "of_str_or_null a = (case a of None \<Rightarrow> JNull | Some s \<Rightarrow> JStr s)"

text \<open>
  Property read \<open>v.k\<close>: a TypeError on \<open>null\<close> and \<open>undefined\<close> (\<open>None\<close> here, the caller
  decides what is thrown), \<open>undefined\<close> for a property that is not there.
\<close>

fun get_prop :: "jsval \<Rightarrow> string \<Rightarrow> jsval option" where
  "get_prop JUndefined k = None"
| "get_prop JNull k = None"
| "get_prop (JObj ps) k = Some (case map_of ps k of None \<Rightarrow> JUndefined | Some v \<Rightarrow> v)"
| "get_prop (JArr xs) k = Some (if k = ''length'' then JNum (of_nat (length xs)) else JUndefined)"
| "get_prop (JStr s) k = Some (if k = ''length'' then JNum (of_nat (length s)) else JUndefined)"
| "get_prop v k = Some JUndefined"

text \<open>\<open>k in v\<close> for the property names the code asks for (never an index or \<open>length\<close>).\<close>

fun has_prop :: "jsval \<Rightarrow> string \<Rightarrow> bool" where
  "has_prop (JObj ps) k = (k \<in> set (map fst ps))"
| "has_prop v k = False"

text \<open>\<open>typeof v === "object"\<close>: objects, arrays and \<open>null\<close>.\<close>

fun typeof_object :: "jsval \<Rightarrow> bool" where
  "typeof_object (JObj ps) = True"
| "typeof_object (JArr xs) = True"
| "typeof_object JNull = True"
| "typeof_object v = False"

text \<open>\<open>s.includes(sub)\<close>.\<close>

fun str_includes :: "string \<Rightarrow> string \<Rightarrow> bool" where
  "str_includes [] sub = (sub = [])"
| "str_includes (c # cs) sub = (take (length sub) (c # cs) = sub \<or> str_includes cs sub)"

text \<open>The decimal digits of a natural number, as a template literal prints it.\<close>

fun string_of_nat :: "nat \<Rightarrow> string" where
  "string_of_nat n =
     (if n < 10 then [''0123456789'' ! n]
      else string_of_nat (n div 10) @ [''0123456789'' ! (n mod 10)])"

declare string_of_nat.simps [simp del]

section \<open>lib/sample-transactions.ts\<close>

record txn_core =
  raw_description :: string
  amount :: rat
  transaction_type :: string

record sample_txn = txn_core +
  days_ago :: nat

text \<open>The account id is passed through as it comes (types are erased at run time).\<close>

record 'a txn_payload = txn_core +
  account_id :: 'a
  transaction_date :: string
  currency :: string

definition sample :: "string \<Rightarrow> rat \<Rightarrow> string \<Rightarrow> nat \<Rightarrow> sample_txn" where
  "sample d a t n = \<lparr>raw_description = d, amount = a, transaction_type = t, days_ago = n\<rparr>"

definition SAMPLE_TRANSACTIONS :: "sample_txn list" where
  "SAMPLE_TRANSACTIONS =
    [sample ''PAYROLL EMPLOYER INC'' 2500 ''credit'' 1,
     sample ''RENT PAYMENT FEB'' 1100 ''debit'' 1,
     sample ''GROCERY MART'' (855 / 10) ''debit'' 2,
     sample ''NETFLIX.COM'' (1599 / 100) ''debit'' 3,
     sample ''SPOTIFY USA'' (1199 / 100) ''debit'' 3,
     sample ''GAS STATION'' 45 ''debit'' 4,
     sample ''PHARMACY CVS'' 22 ''debit'' 5,
     sample ''COFFEE SHOP'' (55 / 10) ''debit'' 5,
     sample ''ELECTRIC COMPANY'' 95 ''debit'' 6,
     sample ''CELL PHONE BILL'' 65 ''debit'' 7]"

text \<open>
  \<open>buildTransactionPayload\<close> reads the clock once per entry (\<open>new Date()\<close>), moves the date
  back by \<open>days_ago\<close> and prints it with \<open>toISOString\<close>. The clock and the calendar belong
  to the platform: \<open>clock i n\<close> is the ISO string the \<open>i\<close>-th entry gets for \<open>n\<close> days ago.
\<close>

definition buildTransactionPayload :: "(nat \<Rightarrow> nat \<Rightarrow> string) \<Rightarrow> 'a \<Rightarrow> 'a txn_payload list" where
  "buildTransactionPayload clock accountId =
     map (\<lambda>(i, t).
            \<lparr>raw_description = raw_description t,
             amount = amount t,
             transaction_type = transaction_type t,
             account_id = accountId,
             transaction_date = clock i (days_ago t),
             currency = ''USD''\<rparr>)
         (enumerate 0 SAMPLE_TRANSACTIONS)"

section \<open>lib/api.ts\<close>

text \<open>
  What \<open>fetch\<close> hands back: a rejection (network failure: CORS block, DNS, offline, wrong
  URL) or a response. Of a response the client reads the status, \<open>headers.get\<close> and
  \<open>json()\<close>, which rejects with the parser's error (\<open>Inl\<close>) or resolves to the parsed body.
\<close>

record response =
  status :: nat
  headers_get :: "string \<Rightarrow> string option"
  json :: "jsval + jsval"

datatype fetch_outcome = NetworkFailure | Responded response

definition ok :: "response \<Rightarrow> bool" where
  "ok res = (200 \<le> status res \<and> status res \<le> 299)"

text \<open>
  The second argument of \<open>fetch\<close>. \<open>body\<close> is the value whose \<open>JSON.stringify\<close> is sent
  (\<open>None\<close> for \<open>undefined\<close>); an absent \<open>headers\<close> spreads to nothing, as the empty map does.
\<close>

record request_init =
  "method" :: "string option"
  body :: "jsval option"
  headers :: "string \<rightharpoonup> string"

record sent_request = request_init +
  url :: string

text \<open>
  The runtime around the code: the build-time \<open>NEXT_PUBLIC_API_BASE_URL\<close>, whether
  \<open>window\<close> exists (browser or server render), the network (\<open>net k\<close> is the outcome of
  the \<open>k\<close>-th \<open>fetch\<close> of the session), the clock behind \<open>buildTransactionPayload\<close>, and
  \<open>parseFloat\<close> on the text of a number input (\<open>None\<close> is \<open>NaN\<close>).
\<close>

record env =
  api_base_url :: "string option"
  has_window :: bool
  net :: "nat \<Rightarrow> fetch_outcome"
  clock :: "nat \<Rightarrow> nat \<Rightarrow> string"
  parseFloat :: "string \<Rightarrow> rat option"

text \<open>
  The mutable state the code touches: \<open>localStorage\<close>, the strings assigned to
  \<open>document.cookie\<close>, the requests handed to \<open>fetch\<close> so far, and the router calls
  (\<open>PushTemplate p v\<close> is \<open>router.push\<close> of the template literal \<open>p${v}\<close>).
\<close>

datatype nav = Replace string | Push string | PushTemplate string jsval

record world =
  localStorage :: "string \<rightharpoonup> string"
  cookie_writes :: "string list"
  sent :: "sent_request list"
  navigations :: "nav list"

definition BASE :: "env \<Rightarrow> string" where
  "BASE e = (if truthy_str (api_base_url e) then the (api_base_url e) else ''http://localhost:8000'')"

definition getToken :: "env \<Rightarrow> world \<Rightarrow> string option" where
  "getToken e w = (if \<not> has_window e then None else localStorage w ''session_token'')"

text \<open>Without a \<open>window\<close> there is no \<open>localStorage\<close>: the first statement throws.\<close>

definition ReferenceError :: "string \<Rightarrow> jsval" where
  "ReferenceError name =
     JObj [(''name'', JStr ''ReferenceError''), (''message'', JStr (name @ '' is not defined''))]"

definition setToken :: "env \<Rightarrow> string \<Rightarrow> world \<Rightarrow> jsval + world" where
  "setToken e token w =
     (if \<not> has_window e then Inl (ReferenceError ''localStorage'')
      else Inr (w\<lparr>localStorage := (localStorage w)(''session_token'' \<mapsto> token),
                  cookie_writes := cookie_writes w
                    @ [''session_token='' @ token @ ''; path=/; SameSite=Lax'']\<rparr>))"

definition clearToken :: "env \<Rightarrow> world \<Rightarrow> jsval + world" where
  "clearToken e w =
     (if \<not> has_window e then Inl (ReferenceError ''localStorage'')
      else Inr (w\<lparr>localStorage := (localStorage w)(''session_token'' := None),
                  cookie_writes := cookie_writes w
                    @ [''session_token=; path=/; expires=Thu, 01 Jan 1970 00:00:00 GMT'']\<rparr>))"

definition hasToken :: "env \<Rightarrow> world \<Rightarrow> bool" where
  "hasToken e w = truthy_str (getToken e w)"

text \<open>The object literal \<open>{ message, requestId, status }\<close> that \<open>request\<close> throws.\<close>

definition ApiError :: "jsval \<Rightarrow> string option \<Rightarrow> nat \<Rightarrow> jsval" where
  "ApiError message requestId st =
     JObj [(''message'', message), (''requestId'', of_str_or_null requestId),
           (''status'', JNum (of_nat st))]"

text \<open>
  The message of a non-2xx response: \<open>body.detail || body.message || message\<close> inside the
  \<open>try\<close>; a rejected \<open>json()\<close> or a body without properties (\<open>null\<close>) leaves the default.
\<close>

definition error_message :: "response \<Rightarrow> jsval" where
  "error_message res =
     (let message = JStr (''Request failed ('' @ string_of_nat (status res) @ '')'') in
      case json res of
        Inl ex \<Rightarrow> message
      | Inr b \<Rightarrow>
          (case get_prop b ''detail'' of
             None \<Rightarrow> message
           | Some detail \<Rightarrow>
               if truthy detail then detail
               else (case get_prop b ''message'' of
                       None \<Rightarrow> message
                     | Some m \<Rightarrow> js_or m message)))"

text \<open>The headers \<open>request\<close> sends: the default, the caller's spread over it, then the token.\<close>

definition request_headers :: "string option \<Rightarrow> (string \<rightharpoonup> string) \<Rightarrow> (string \<rightharpoonup> string)" where
  "request_headers token hs =
     (let h = [''Content-Type'' \<mapsto> ''application/json''] ++ hs in
      if truthy_str token then h(''X-Session-Token'' \<mapsto> the token) else h)"

text \<open>
  \<open>request\<close>: the thrown value (\<open>Inl\<close>) or \<open>{ data, requestId }\<close> (\<open>Inr\<close>, as a pair), and the
  world with the request recorded.
\<close>

definition request ::
  "env \<Rightarrow> string \<Rightarrow> request_init \<Rightarrow> world \<Rightarrow> (jsval + jsval \<times> string option) \<times> world" where
  "request e path opts w =
     (let token = getToken e w;
          hs = request_headers token (headers opts);
          w' = w\<lparr>sent := sent w
                 @ [\<lparr>method = method opts, body = body opts, headers = hs, url = BASE e @ path\<rparr>]\<rparr>
      in case net e (length (sent w)) of
           NetworkFailure \<Rightarrow>
             (let hint = (if str_includes (BASE e) ''localhost''
                          then '' Check that NEXT_PUBLIC_API_BASE_URL is set to your backend URL.''
                          else [])
              in (Inl (ApiError (JStr (''Cannot reach the server.'' @ hint)) None 0), w'))
         | Responded res \<Rightarrow>
             (let requestId = js_or_str (headers_get res ''x-request-id'')
                                        (headers_get res ''X-Request-ID'')
              in if \<not> ok res then (Inl (ApiError (error_message res) requestId (status res)), w')
                 else if status res = 204 then (Inr (JNull, requestId), w')
                 else (case json res of
                         Inl ex \<Rightarrow> (Inl ex, w')
                       | Inr d \<Rightarrow> (Inr (d, requestId), w'))))"

text \<open>The \<open>api\<close> object: every caller reaches \<open>request\<close> through one of these.\<close>

datatype api_call =
    Get string
  | Post string "jsval option"
  | Put string "jsval option"
  | Patch string "jsval option"
  | Delete string

fun api_path :: "api_call \<Rightarrow> string" where
  "api_path (Get p) = p"
| "api_path (Post p b) = p"
| "api_path (Put p b) = p"
| "api_path (Patch p b) = p"
| "api_path (Delete p) = p"

fun api_opts :: "api_call \<Rightarrow> request_init" where
  "api_opts (Get p) = \<lparr>method = Some ''GET'', body = None, headers = Map.empty\<rparr>"
| "api_opts (Post p b) = \<lparr>method = Some ''POST'', body = b, headers = Map.empty\<rparr>"
| "api_opts (Put p b) = \<lparr>method = Some ''PUT'', body = b, headers = Map.empty\<rparr>"
| "api_opts (Patch p b) = \<lparr>method = Some ''PATCH'', body = b, headers = Map.empty\<rparr>"
| "api_opts (Delete p) = \<lparr>method = Some ''DELETE'', body = None, headers = Map.empty\<rparr>"

definition api :: "env \<Rightarrow> api_call \<Rightarrow> world \<Rightarrow> (jsval + jsval \<times> string option) \<times> world" where
  "api e c w = request e (api_path c) (api_opts c) w"

definition isApiError :: "jsval \<Rightarrow> bool" where
  "isApiError e = (typeof_object e \<and> e \<noteq> JNull \<and> has_prop e ''message'' \<and> has_prop e ''status'')"

section \<open>middleware.ts\<close>

text \<open>
  Of a \<open>NextRequest\<close> the middleware reads the cookies and the URL. The path is the list
  of its segments (\<open>/cheat/run/7\<close> is \<open>[cheat, run, 7]\<close>); \<open>cookies.get\<close> returns the cookie
  (an object, truthy whatever its value) or \<open>undefined\<close>.
\<close>

record next_request =
  origin :: string
  pathname :: "string list"
  cookies :: "string \<rightharpoonup> string"

datatype next_response = Redirect string | NextResponse_next

definition middleware :: "next_request \<Rightarrow> next_response" where
  "middleware req =
     (case cookies req ''session_token'' of
        None \<Rightarrow> Redirect (origin req @ ''/login'')
      | Some token \<Rightarrow> NextResponse_next)"

text \<open>
  \<open>config.matcher\<close>: a literal segment matches itself, \<open>:path*\<close> matches any number of
  segments (none included). The framework runs the middleware on the paths one of the
  patterns matches, and passes every other request on.
\<close>

datatype seg = Lit string | ZeroOrMore string

fun matches :: "seg list \<Rightarrow> string list \<Rightarrow> bool" where
  "matches [] xs = (xs = [])"
| "matches (Lit s # ps) [] = False"
| "matches (Lit s # ps) (x # xs) = (s = x \<and> matches ps xs)"
| "matches (ZeroOrMore n # ps) [] = matches ps []"
| "matches (ZeroOrMore n # ps) (x # xs) = (matches ps (x # xs) \<or> matches (ZeroOrMore n # ps) xs)"

definition matcher :: "seg list list" where
  "matcher = [[Lit ''home''], [Lit ''settings''], [Lit ''onboarding''],
              [Lit ''cheat'', ZeroOrMore ''path'']]"

definition serve :: "next_request \<Rightarrow> next_response" where
  "serve req =
     (if list_ex (\<lambda>m. matches m (pathname req)) matcher then middleware req
      else NextResponse_next)"

section \<open>Handlers: awaiting, throwing, catching\<close>

text \<open>
  An \<open>async\<close> body: from a state to the value thrown (\<open>Inl\<close>) or returned (\<open>Inr\<close>) and the
  state it leaves. \<open>io_bind\<close> is \<open>await\<close> in sequence: a throw skips the rest, and keeps
  the state changes made before it.
\<close>

type_synonym ('s, 'a) io = "'s \<Rightarrow> (jsval + 'a) \<times> 's"

definition io_return :: "'a \<Rightarrow> ('s, 'a) io" where
  "io_return x s = (Inr x, s)"

definition io_throw :: "jsval \<Rightarrow> ('s, 'a) io" where
  "io_throw ex s = (Inl ex, s)"

definition io_bind :: "('s, 'a) io \<Rightarrow> ('a \<Rightarrow> ('s, 'b) io) \<Rightarrow> ('s, 'b) io" where
  "io_bind m f s = (case m s of (Inl ex, s') \<Rightarrow> (Inl ex, s') | (Inr x, s') \<Rightarrow> f x s')"

definition io_then :: "('s, 'a) io \<Rightarrow> ('s, 'b) io \<Rightarrow> ('s, 'b) io" where
  "io_then m k = io_bind m (\<lambda>_. k)"

definition io_when :: "bool \<Rightarrow> ('s, 'a) io \<Rightarrow> ('s, unit) io" where
  "io_when b m = (if b then io_then m (io_return ()) else io_return ())"

text \<open>\<open>try { m } catch { }\<close> with \<open>d\<close> as the value when \<open>m\<close> threw.\<close>

definition io_catch :: "('s, 'a) io \<Rightarrow> 'a \<Rightarrow> ('s, 'a) io" where
  "io_catch m d s = (case m s of (Inl ex, s') \<Rightarrow> (Inr d, s') | (Inr x, s') \<Rightarrow> (Inr x, s'))"

text \<open>\<open>try { body } catch (err) { handler } finally { fin }\<close> as a whole handler.\<close>

definition try_catch_finally ::
  "('s, 'a) io \<Rightarrow> (jsval \<Rightarrow> 's \<Rightarrow> 's) \<Rightarrow> ('s \<Rightarrow> 's) \<Rightarrow> 's \<Rightarrow> 's" where
  "try_catch_finally tr handler fin s =
     (case tr s of (Inr x, s') \<Rightarrow> fin s' | (Inl err, s') \<Rightarrow> fin (handler err s'))"

definition TypeError :: "string \<Rightarrow> jsval" where
  "TypeError k =
     JObj [(''name'', JStr ''TypeError''),
           (''message'', JStr (''Cannot read properties of null (reading '' @ k @ '')''))]"

text \<open>\<open>v.k\<close> inside a handler: a read on \<open>null\<close> or \<open>undefined\<close> throws.\<close>

definition read :: "jsval \<Rightarrow> string \<Rightarrow> ('s, jsval) io" where
  "read v k = (case get_prop v k of None \<Rightarrow> io_throw (TypeError k) | Some x \<Rightarrow> io_return x)"

text \<open>A page's state next to the world; \<open>setX(v)\<close>, the router, and the API from a page.\<close>

definition set_page :: "('p \<Rightarrow> 'p) \<Rightarrow> ('p \<times> world, unit) io" where
  "set_page f s = (Inr (), (f (fst s), snd s))"

definition on_page :: "('p \<Rightarrow> 'p) \<Rightarrow> 'p \<times> world \<Rightarrow> 'p \<times> world" where
  "on_page f s = (f (fst s), snd s)"

definition router :: "nav \<Rightarrow> 'p \<times> world \<Rightarrow> 'p \<times> world" where
  "router n s = (fst s, (snd s)\<lparr>navigations := navigations (snd s) @ [n]\<rparr>)"

definition navigate :: "nav \<Rightarrow> ('p \<times> world, unit) io" where
  "navigate n s = (Inr (), router n s)"

text \<open>\<open>const { data } = await api.get(...)\<close> and its siblings.\<close>

definition call :: "env \<Rightarrow> api_call \<Rightarrow> ('p \<times> world, jsval) io" where
  "call e c s =
     (case api e c (snd s) of
        (Inl ex, w') \<Rightarrow> (Inl ex, (fst s, w'))
      | (Inr r, w') \<Rightarrow> (Inr (fst r), (fst s, w')))"

text \<open>A property of a caught value that is an object (\<open>isApiError\<close> held).\<close>

definition field :: "jsval \<Rightarrow> string \<Rightarrow> jsval" where
  "field v k = (case get_prop v k of None \<Rightarrow> JUndefined | Some x \<Rightarrow> x)"

text \<open>\<open>Array.isArray(r) ? r : []\<close>.\<close>

definition array_or_empty :: "jsval \<Rightarrow> jsval list" where
  "array_or_empty r = (case r of JArr xs \<Rightarrow> xs | _ \<Rightarrow> [])"

text \<open>The state every page keeps: the error shown, its request id, the busy flag.\<close>

record page_base =
  error :: jsval
  requestId :: jsval
  loading :: bool

record rec_page = page_base +
  recs :: "jsval list"

definition show_error :: "jsval \<Rightarrow> 'a page_base_scheme \<Rightarrow> 'a page_base_scheme" where
  "show_error err p = p\<lparr>error := field err ''message'', requestId := field err ''requestId''\<rparr>"

section \<open>app/onboarding/page.tsx\<close>

record onboarding_page = rec_page +
  step :: nat
  checking_st :: bool
  consentData :: bool
  consentTerms :: bool
  consentAi :: bool
  institution :: string
  acctName :: string
  balance :: string
  accountId :: jsval
  txnCount :: nat
  goalType :: string
  constraintLabel :: string
  constraints :: "string list"

definition STEPS :: "string list" where
  "STEPS = [''Consent'', ''Account'', ''Transactions'', ''Goals'', ''Top 3'']"

text \<open>The \<open>useState\<close> initial values.\<close>

definition OnboardingPage :: onboarding_page where
  "OnboardingPage =
     \<lparr>error = JStr [], requestId = JNull, loading = False, recs = [],
      step = 0, checking_st = True,
      consentData = False, consentTerms = False, consentAi = False,
      institution = [], acctName = [], balance = [], accountId = JNull,
      txnCount = 0, goalType = ''build_emergency_fund'', constraintLabel = [],
      constraints = []\<rparr>"

definition clearError :: "onboarding_page \<Rightarrow> onboarding_page" where
  "clearError p = p\<lparr>error := JStr [], requestId := JNull\<rparr>"

definition handleError :: "jsval \<Rightarrow> onboarding_page \<Rightarrow> onboarding_page" where
  "handleError err p =
     (if isApiError err then show_error err p
      else p\<lparr>error := JStr ''An unexpected error occurred''\<rparr>)"

text \<open>
  The mount effect. \<open>current_step\<close> is the backend's name of a step, a string, and
  \<open>s in map\<close> is membership among the five keys of \<open>map\<close>: a value that is not a string,
  or a string naming a property every object inherits (\<open>toString\<close>, \<open>constructor\<close>),
  is not a step name the backend sends, and counts as not in \<open>map\<close>.
\<close>

definition step_map :: "(string \<times> nat) list" where
  "step_map = [(''consent'', 0), (''account_link'', 1), (''goals'', 2), (''top_3'', 3),
               (''first_win'', 4)]"

definition in_step_map :: "jsval \<Rightarrow> bool" where
  "in_step_map s = (case s of JStr k \<Rightarrow> map_of step_map k \<noteq> None | _ \<Rightarrow> False)"

definition wizard_step :: "jsval \<Rightarrow> nat" where
  "wizard_step s =
     (if s = JStr ''account_link'' then 2
      else if s = JStr ''goals'' then 3
      else if s = JStr ''top_3'' \<or> s = JStr ''first_win'' then 4
      else (case s of
              JStr k \<Rightarrow> (case map_of step_map k of Some n \<Rightarrow> (if n \<noteq> 0 then n else 0) | None \<Rightarrow> 0)
            | _ \<Rightarrow> 0))"

text \<open>
  The values of \<open>current_step\<close> the backend sends: one of its step names, or none
  (\<open>undefined\<close>). On these \<open>in_step_map\<close> and \<open>wizard_step\<close> are what the code computes.
\<close>

definition step_name_or_absent :: "jsval \<Rightarrow> bool" where
  "step_name_or_absent s =
     (s \<in> set (JUndefined # map JStr [''consent'', ''account_link'', ''goals'', ''top_3'',
                                      ''first_win'', ''completed'']))"

definition mount_try :: "env \<Rightarrow> (onboarding_page \<times> world, unit) io" where
  "mount_try e =
     io_bind (call e (Get ''/onboarding/state'')) (\<lambda>data.
     io_bind (read data ''current_step'') (\<lambda>s.
       if s = JStr ''completed'' \<or> truthy (field data ''first_win_completed_at'')
       then navigate (Replace ''/home'')
       else if in_step_map s then set_page (\<lambda>p. p\<lparr>step := wizard_step s\<rparr>)
       else io_return ()))"

definition mount :: "env \<Rightarrow> onboarding_page \<times> world \<Rightarrow> onboarding_page \<times> world" where
  "mount e s =
     (if \<not> hasToken e (snd s) then router (Replace ''/login'') s
      else try_catch_finally (mount_try e) (\<lambda>err s'. s')
             (on_page (\<lambda>p. p\<lparr>checking_st := False\<rparr>)) s)"

text \<open>What every submit handler does first: \<open>clearError(); setLoading(true)\<close>.\<close>

definition begin_submit :: "onboarding_page \<times> world \<Rightarrow> onboarding_page \<times> world" where
  "begin_submit s = on_page (\<lambda>p. (clearError p)\<lparr>loading := True\<rparr>) s"

definition submit ::
  "(onboarding_page \<times> world, 'a) io \<Rightarrow> onboarding_page \<times> world \<Rightarrow> onboarding_page \<times> world" where
  "submit tr s =
     try_catch_finally tr (\<lambda>err. on_page (handleError err))
       (on_page (\<lambda>p. p\<lparr>loading := False\<rparr>)) (begin_submit s)"

text \<open>Step 0: Consent.\<close>

definition consent_grant :: "string \<Rightarrow> api_call" where
  "consent_grant t = Post ''/consent/grant'' (Some (JObj [(''consent_type'', JStr t)]))"

definition submitConsent_try :: "env \<Rightarrow> onboarding_page \<Rightarrow> (onboarding_page \<times> world, unit) io" where
  "submitConsent_try e p0 =
     io_then (io_when (consentData p0) (call e (consent_grant ''data_access'')))
    (io_then (io_when (consentTerms p0) (call e (consent_grant ''terms_of_service'')))
    (io_then (io_when (consentAi p0) (call e (consent_grant ''ai_memory'')))
    (io_then (call e (Post ''/onboarding/advance?step=consent'' None))
             (set_page (\<lambda>p. p\<lparr>step := 1\<rparr>)))))"

definition submitConsent :: "env \<Rightarrow> onboarding_page \<times> world \<Rightarrow> onboarding_page \<times> world" where
  "submitConsent e s = submit (submitConsent_try e (fst s)) s"

text \<open>Step 1: Account. \<open>parseFloat(balance) || 0\<close>: \<open>NaN\<close> and \<open>0\<close> give \<open>0\<close>.\<close>

definition submitAccount_try :: "env \<Rightarrow> onboarding_page \<Rightarrow> (onboarding_page \<times> world, unit) io" where
  "submitAccount_try e p0 =
     io_bind (call e (Post ''/accounts/manual'' (Some (JObj
                [(''account_type'', JStr ''checking''),
                 (''institution_name'', JStr (institution p0)),
                 (''account_name'', JStr (acctName p0)),
                 (''current_balance'',
                    JNum (case parseFloat e (balance p0) of None \<Rightarrow> 0 | Some x \<Rightarrow> x)),
                 (''currency'', JStr ''USD'')])))) (\<lambda>data.
     io_bind (read data ''id'') (\<lambda>i.
     io_then (set_page (\<lambda>p. p\<lparr>accountId := i\<rparr>))
    (io_then (call e (Post ''/onboarding/advance?step=account_link'' None))
             (set_page (\<lambda>p. p\<lparr>step := 2\<rparr>)))))"

definition submitAccount :: "env \<Rightarrow> onboarding_page \<times> world \<Rightarrow> onboarding_page \<times> world" where
  "submitAccount e s = submit (submitAccount_try e (fst s)) s"

text \<open>Step 2: Transactions.\<close>

definition payload_json :: "jsval txn_payload \<Rightarrow> jsval" where
  "payload_json t =
     JObj [(''account_id'', account_id t),
           (''raw_description'', JStr (raw_description t)),
           (''amount'', JNum (amount t)),
           (''transaction_type'', JStr (transaction_type t)),
           (''transaction_date'', JStr (transaction_date t)),
           (''currency'', JStr (currency t))]"

definition getFirstAccountId :: "env \<Rightarrow> (onboarding_page \<times> world, jsval) io" where
  "getFirstAccountId e =
     io_catch
       (io_bind (call e (Get ''/accounts'')) (\<lambda>data.
          case data of
            JArr (x # xs) \<Rightarrow>
              io_bind (read x ''id'') (\<lambda>i.
              io_then (set_page (\<lambda>p. p\<lparr>accountId := i\<rparr>)) (io_return i))
          | _ \<Rightarrow> io_return JNull))
       JNull"

text \<open>The \<open>for\<close> loop over the payloads: one POST each, counted.\<close>

fun post_all :: "env \<Rightarrow> jsval list \<Rightarrow> nat \<Rightarrow> (onboarding_page \<times> world, nat) io" where
  "post_all e [] n = io_return n"
| "post_all e (b # bs) n =
     io_then (call e (Post ''/transactions'' (Some b))) (post_all e bs (Suc n))"

definition addSampleTransactions_try ::
  "env \<Rightarrow> onboarding_page \<Rightarrow> (onboarding_page \<times> world, unit) io" where
  "addSampleTransactions_try e p0 =
     io_bind (if truthy (accountId p0) then io_return (accountId p0) else getFirstAccountId e)
       (\<lambda>aid.
          if \<not> truthy aid
          then set_page (\<lambda>p. p\<lparr>error := JStr ''No account found'', loading := False\<rparr>)
          else io_bind (post_all e (map payload_json (buildTransactionPayload (clock e) aid)) 0)
                 (\<lambda>n. set_page (\<lambda>p. p\<lparr>txnCount := n\<rparr>)))"

definition addSampleTransactions ::
  "env \<Rightarrow> onboarding_page \<times> world \<Rightarrow> onboarding_page \<times> world" where
  "addSampleTransactions e s = submit (addSampleTransactions_try e (fst s)) s"

definition submitTransactions_try :: "env \<Rightarrow> (onboarding_page \<times> world, unit) io" where
  "submitTransactions_try e =
     io_then (call e (Post ''/recurring/detect'' None))
    (io_then (call e (Post ''/forecast/compute'' None))
             (set_page (\<lambda>p. p\<lparr>step := 3\<rparr>)))"

definition submitTransactions ::
  "env \<Rightarrow> onboarding_page \<times> world \<Rightarrow> onboarding_page \<times> world" where
  "submitTransactions e s = submit (submitTransactions_try e) s"

text \<open>Step 3: Goals. \<open>trim\<close> strips white space (here the ASCII one) at both ends.\<close>

definition is_space :: "char \<Rightarrow> bool" where
  "is_space c = (c \<in> set [CHR '' '', CHR 0x09, CHR 0x0A, CHR 0x0B, CHR 0x0C, CHR 0x0D])"

definition trim :: "string \<Rightarrow> string" where
  "trim s = rev (dropWhile is_space (rev (dropWhile is_space s)))"

definition addConstraint_try :: "env \<Rightarrow> onboarding_page \<Rightarrow> (onboarding_page \<times> world, unit) io" where
  "addConstraint_try e p0 =
     io_then (call e (Post ''/goals/constraints'' (Some (JObj
                [(''constraint_type'', JStr ''essential''),
                 (''label'', JStr (trim (constraintLabel p0)))]))))
             (set_page (\<lambda>p. p\<lparr>constraints := constraints p0 @ [trim (constraintLabel p0)],
                               constraintLabel := []\<rparr>))"

definition addConstraint :: "env \<Rightarrow> onboarding_page \<times> world \<Rightarrow> onboarding_page \<times> world" where
  "addConstraint e s =
     (if trim (constraintLabel (fst s)) = [] then s
      else try_catch_finally (addConstraint_try e (fst s)) (\<lambda>err. on_page (handleError err))
             (\<lambda>s'. s') (on_page clearError s))"

definition submitGoals_try :: "env \<Rightarrow> onboarding_page \<Rightarrow> (onboarding_page \<times> world, unit) io" where
  "submitGoals_try e p0 =
     io_then (call e (Post ''/goals'' (Some (JObj
                [(''goal_type'', JStr (goalType p0)),
                 (''title'', JStr (map (\<lambda>c. if c = CHR ''_'' then CHR '' '' else c) (goalType p0))),
                 (''priority'', JStr ''high'')]))))
    (io_then (call e (Post ''/onboarding/advance?step=goals'' None))
    (io_bind (call e (Post ''/cheat-codes/top-3'' None)) (\<lambda>data.
     io_then (set_page (\<lambda>p. p\<lparr>recs := array_or_empty data\<rparr>))
    (io_then (call e (Post ''/onboarding/advance?step=top_3'' None))
             (set_page (\<lambda>p. p\<lparr>step := 4\<rparr>))))))"

definition submitGoals :: "env \<Rightarrow> onboarding_page \<times> world \<Rightarrow> onboarding_page \<times> world" where
  "submitGoals e s = submit (submitGoals_try e (fst s)) s"

text \<open>Step 4: Top 3, start a run.\<close>

definition startRun_try :: "env \<Rightarrow> jsval \<Rightarrow> (onboarding_page \<times> world, unit) io" where
  "startRun_try e recId =
     io_bind (call e (Post ''/cheat-codes/runs'' (Some (JObj [(''recommendation_id'', recId)]))))
       (\<lambda>data.
     io_bind (read data ''id'') (\<lambda>i. navigate (PushTemplate ''/cheat/run/'' i)))"

definition startRun :: "env \<Rightarrow> jsval \<Rightarrow> onboarding_page \<times> world \<Rightarrow> onboarding_page \<times> world" where
  "startRun e recId s = submit (startRun_try e recId) s"

text \<open>
  What the user can do. The page renders nothing to act on while it is checking, and
  then only the controls of the current step; a disabled button does not fire.
  \<open>ClickStart i\<close> is the Start button of the \<open>i\<close>-th card.
\<close>

datatype event =
    CheckData bool
  | CheckTerms bool
  | CheckAi bool
  | TypeInstitution string
  | TypeAcctName string
  | TypeBalance string
  | SelectGoal string
  | TypeConstraint string
  | ClickContinue
  | ClickAddSample
  | ClickAddConstraint
  | ClickStart nat

definition continue_disabled :: "onboarding_page \<Rightarrow> bool" where
  "continue_disabled p =
     (if step p = 0 then \<not> consentData p \<or> \<not> consentTerms p \<or> loading p
      else if step p = 1 then institution p = [] \<or> acctName p = [] \<or> loading p
      else if step p = 2 then txnCount p = 0 \<or> loading p
      else if step p = 3 then loading p
      else True)"

definition onContinue :: "env \<Rightarrow> onboarding_page \<times> world \<Rightarrow> onboarding_page \<times> world" where
  "onContinue e s =
     (if step (fst s) = 0 then submitConsent e s
      else if step (fst s) = 1 then submitAccount e s
      else if step (fst s) = 2 then submitTransactions e s
      else if step (fst s) = 3 then submitGoals e s
      else s)"

fun dispatch :: "env \<Rightarrow> event \<Rightarrow> onboarding_page \<times> world \<Rightarrow> onboarding_page \<times> world" where
  "dispatch e (CheckData b) s =
     (if step (fst s) = 0 then on_page (\<lambda>p. p\<lparr>consentData := b\<rparr>) s else s)"
| "dispatch e (CheckTerms b) s =
     (if step (fst s) = 0 then on_page (\<lambda>p. p\<lparr>consentTerms := b\<rparr>) s else s)"
| "dispatch e (CheckAi b) s =
     (if step (fst s) = 0 then on_page (\<lambda>p. p\<lparr>consentAi := b\<rparr>) s else s)"
| "dispatch e (TypeInstitution v) s =
     (if step (fst s) = 1 then on_page (\<lambda>p. p\<lparr>institution := v\<rparr>) s else s)"
| "dispatch e (TypeAcctName v) s =
     (if step (fst s) = 1 then on_page (\<lambda>p. p\<lparr>acctName := v\<rparr>) s else s)"
| "dispatch e (TypeBalance v) s =
     (if step (fst s) = 1 then on_page (\<lambda>p. p\<lparr>balance := v\<rparr>) s else s)"
| "dispatch e (SelectGoal v) s =
     (if step (fst s) = 3 then on_page (\<lambda>p. p\<lparr>goalType := v\<rparr>) s else s)"
| "dispatch e (TypeConstraint v) s =
     (if step (fst s) = 3 then on_page (\<lambda>p. p\<lparr>constraintLabel := v\<rparr>) s else s)"
| "dispatch e ClickContinue s =
     (if continue_disabled (fst s) then s else onContinue e s)"
| "dispatch e ClickAddSample s =
     (if step (fst s) = 2 \<and> \<not> loading (fst s) then addSampleTransactions e s else s)"
| "dispatch e ClickAddConstraint s =
     (if step (fst s) = 3 then addConstraint e s else s)"
| "dispatch e (ClickStart i) s =
     (if step (fst s) = 4 \<and> i < length (recs (fst s)) \<and> \<not> loading (fst s)
      then (case get_prop (recs (fst s) ! i) ''id'' of
              None \<Rightarrow> s
            | Some recId \<Rightarrow> startRun e recId s)
      else s)"

definition user_event :: "env \<Rightarrow> event \<Rightarrow> onboarding_page \<times> world \<Rightarrow> onboarding_page \<times> world" where
  "user_event e ev s = (if checking_st (fst s) then s else dispatch e ev s)"

fun user_events :: "env \<Rightarrow> event list \<Rightarrow> onboarding_page \<times> world \<Rightarrow> onboarding_page \<times> world" where
  "user_events e [] s = s"
| "user_events e (ev # evs) s = user_events e evs (user_event e ev s)"

text \<open>A visit of the page: the initial state, the mount effect, then the user.\<close>

definition visit :: "env \<Rightarrow> event list \<Rightarrow> world \<Rightarrow> onboarding_page \<times> world" where
  "visit e evs w = user_events e evs (mount e (OnboardingPage, w))"

section \<open>app/home/page.tsx\<close>

record home_page = rec_page +
  forecast :: jsval
  showAssumptions :: bool

definition HomePage :: home_page where
  "HomePage = \<lparr>error = JStr [], requestId = JNull, loading = True, recs = [],
               forecast = JNull, showAssumptions = False\<rparr>"

definition checkOnboardingAndLoad_try :: "env \<Rightarrow> (home_page \<times> world, unit) io" where
  "checkOnboardingAndLoad_try e =
     io_bind (call e (Get ''/onboarding/state'')) (\<lambda>state.
     io_bind (read state ''first_win_completed_at'') (\<lambda>f.
     io_bind (if truthy f then io_return False
              else io_bind (read state ''current_step'') (\<lambda>s. io_return (s \<noteq> JStr ''completed'')))
       (\<lambda>redirect.
          if redirect then navigate (Replace ''/onboarding'')
          else io_then
                 (io_catch (io_bind (call e (Get ''/forecast/latest''))
                              (\<lambda>fc. set_page (\<lambda>p. p\<lparr>forecast := fc\<rparr>))) ())
                 (io_catch (io_bind (call e (Get ''/cheat-codes/recommendations''))
                              (\<lambda>r. set_page (\<lambda>p. p\<lparr>recs := array_or_empty r\<rparr>))) ()))))"

definition home_catch :: "jsval \<Rightarrow> home_page \<times> world \<Rightarrow> home_page \<times> world" where
  "home_catch err s =
     (if isApiError err
      then (if field err ''status'' = JNum 401 then router (Replace ''/login'') s
            else on_page (show_error err) s)
      else s)"

definition checkOnboardingAndLoad :: "env \<Rightarrow> home_page \<times> world \<Rightarrow> home_page \<times> world" where
  "checkOnboardingAndLoad e s =
     try_catch_finally (checkOnboardingAndLoad_try e) home_catch
       (on_page (\<lambda>p. p\<lparr>loading := False\<rparr>)) s"

text \<open>A load of \<open>/home\<close>: the initial state and the mount effect.\<close>

definition home_load :: "env \<Rightarrow> world \<Rightarrow> home_page \<times> world" where
  "home_load e w =
     (if \<not> hasToken e w then router (Replace ''/login'') (HomePage, w)
      else checkOnboardingAndLoad e (HomePage, w))"

section \<open>app/cheat/run/[runId]/page.tsx\<close>

record run_page = page_base +
  run :: jsval
  title :: jsval
  firstWin :: bool
  completing :: bool

definition RunPage :: run_page where
  "RunPage = \<lparr>error = JStr [], requestId = JNull, loading = True, run = JNull,
              title = JStr ''Cheat Code Run'', firstWin = False, completing = False\<rparr>"

definition complete_step :: "string \<Rightarrow> api_call" where
  "complete_step runId =
     Post (''/cheat-codes/runs/'' @ runId @ ''/steps/complete'')
       (Some (JObj [(''step_number'', JNum 1), (''notes'', JStr ''Completed step 1'')]))"

definition completeStep1_try :: "env \<Rightarrow> string \<Rightarrow> (run_page \<times> world, unit) io" where
  "completeStep1_try e runId =
     io_then (call e (complete_step runId))
    (io_then (io_catch (io_then (call e (Post ''/onboarding/advance?step=first_win'' None))
                          (io_return ())) ())
    (io_then (set_page (\<lambda>p. p\<lparr>firstWin := True\<rparr>))
    (io_bind (call e (Get (''/cheat-codes/runs/'' @ runId)))
       (\<lambda>data. set_page (\<lambda>p. p\<lparr>run := data\<rparr>)))))"

definition completeStep1 :: "env \<Rightarrow> string \<Rightarrow> run_page \<times> world \<Rightarrow> run_page \<times> world" where
  "completeStep1 e runId s =
     try_catch_finally (completeStep1_try e runId)
       (\<lambda>err. if isApiError err then on_page (show_error err) else (\<lambda>s'. s'))
       (on_page (\<lambda>p. p\<lparr>completing := False\<rparr>))
       (on_page (\<lambda>p. p\<lparr>error := JStr [], requestId := JNull, completing := True\<rparr>) s)"

section \<open>The Top 3 ranking (backend)\<close>

text \<open>
  Modelled from the spec: the backend service that ranks the recommendations
  (\<open>/cheat-codes/top-3\<close>) is not among the sources; only the frontend that shows its
  result and the launch report that names its tests are. The spec's words: the ranking
  is a filter-then-sort over a small, already-computed candidate list; it drops
  low-confidence candidates before ranking, guarantees at least one quick win in the
  final three, and the urgency score never promotes a low-confidence candidate; the Top 3
  is a ranked list of at most three. The order is any key on the candidates (the urgency
  score, or anything computed from it), highest first; when the first three hold no quick
  win, the best-ranked quick win among the rest takes the third place.
\<close>

datatype confidence = Low | Medium | High

record candidate =
  cheat_code_id :: string
  confidence :: confidence
  is_quick_win :: bool
  urgency_score :: nat

definition eligible :: "candidate list \<Rightarrow> candidate list" where
  "eligible cs = filter (\<lambda>c. confidence c \<noteq> Low) cs"

definition ranked :: "(candidate \<Rightarrow> int) \<Rightarrow> candidate list \<Rightarrow> candidate list" where
  "ranked score cs = sort_key (\<lambda>c. - score c) (eligible cs)"

definition ensure_quick_win :: "candidate list \<Rightarrow> candidate list \<Rightarrow> candidate list" where
  "ensure_quick_win first3 rest =
     (if list_ex is_quick_win first3 then first3
      else (case find is_quick_win rest of
              None \<Rightarrow> first3
            | Some q \<Rightarrow> butlast first3 @ [q]))"

definition top3 :: "(candidate \<Rightarrow> int) \<Rightarrow> candidate list \<Rightarrow> candidate list" where
  "top3 score cs = ensure_quick_win (take 3 (ranked score cs)) (drop 3 (ranked score cs))"

text \<open>The urgency score as the ranking key.\<close>

definition by_urgency :: "candidate \<Rightarrow> int" where
  "by_urgency c = int (urgency_score c)"

section \<open>Predicates for the proofs\<close>

text \<open>
  A request that grants AI-memory consent: any request whose JSON body carries
  \<open>consent_type: "ai_memory"\<close>, whatever its path.
\<close>

definition ai_memory_grant :: "sent_request \<Rightarrow> bool" where
  "ai_memory_grant r =
     (case body r of None \<Rightarrow> False | Some b \<Rightarrow> field b ''consent_type'' = JStr ''ai_memory'')"

text \<open>The request an \<open>api\<close> call hands to \<open>fetch\<close> from a given world.\<close>

definition api_sent :: "env \<Rightarrow> api_call \<Rightarrow> world \<Rightarrow> sent_request" where
  "api_sent e c w = \<lparr>method = method (api_opts c), body = body (api_opts c),
        headers = request_headers (getToken e w) Map.empty, url = BASE e @ api_path c\<rparr>"

text \<open>
  A triple for an \<open>async\<close> body: from a state where \<open>P\<close> holds, \<open>Q\<close> holds when the body
  returns and \<open>E\<close> when it throws.
\<close>

definition triple ::
  "('s \<Rightarrow> bool) \<Rightarrow> ('s, 'a) io \<Rightarrow> ('s \<Rightarrow> bool) \<Rightarrow> ('s \<Rightarrow> bool) \<Rightarrow> bool" where
  "triple P m Q E =
     ((\<forall>s x s'. P s \<and> m s = (Inr x, s') \<longrightarrow> Q s')
      \<and> (\<forall>s err s'. P s \<and> m s = (Inl err, s') \<longrightarrow> E s'))"

text \<open>The AI-memory box is unchecked and no AI-memory grant has been sent.\<close>

definition quiet :: "onboarding_page \<times> world \<Rightarrow> bool" where
  "quiet s = (\<not> consentAi (fst s) \<and> \<not> list_ex ai_memory_grant (sent (snd s)))"

definition at_step :: "nat \<Rightarrow> onboarding_page \<times> world \<Rightarrow> bool" where
  "at_step k s = (step (fst s) = k)"

definition in_wizard :: "onboarding_page \<times> world \<Rightarrow> bool" where
  "in_wizard s = (step (fst s) \<le> 4)"

section \<open>Example inputs\<close>

definition browser :: "(nat \<Rightarrow> fetch_outcome) \<Rightarrow> env" where
  "browser n = \<lparr>api_base_url = Some ''https://api.finitii.test'', has_window = True, net = n,
                clock = (\<lambda>i d. ''2026-02-10T00:00:00.000Z''), parseFloat = (\<lambda>s. None)\<rparr>"

definition respond :: "nat \<Rightarrow> (string \<rightharpoonup> string) \<Rightarrow> jsval + jsval \<Rightarrow> fetch_outcome" where
  "respond st hs b = Responded \<lparr>status = st, headers_get = hs, json = b\<rparr>"

definition fresh_world :: world where
  "fresh_world = \<lparr>localStorage = Map.empty, cookie_writes = [], sent = [], navigations = []\<rparr>"

text \<open>The world after \<open>setToken("tok")\<close>, and after \<open>clearToken()\<close> on top of it.\<close>

definition signed_in :: world where
  "signed_in = fresh_world\<lparr>localStorage := [''session_token'' \<mapsto> ''tok''],
                           cookie_writes := [''session_token=tok; path=/; SameSite=Lax'']\<rparr>"

definition signed_out :: world where
  "signed_out = fresh_world\<lparr>cookie_writes :=
       [''session_token=tok; path=/; SameSite=Lax'',
        ''session_token=; path=/; expires=Thu, 01 Jan 1970 00:00:00 GMT'']\<rparr>"

text \<open>What \<open>res.json()\<close> rejects with on a body that is not JSON.\<close>

definition SyntaxError :: jsval where
  "SyntaxError =
     JObj [(''name'', JStr ''SyntaxError''), (''message'', JStr ''Unexpected end of JSON input'')]"

text \<open>A backend that answers every request of a user still in onboarding with one object.\<close>

definition onboarding_state :: jsval where
  "onboarding_state =
     JObj [(''current_step'', JStr ''consent''), (''first_win_completed_at'', JNull),
           (''id'', JStr ''a1'')]"

definition new_user :: env where
  "new_user = browser (\<lambda>k. respond 200 Map.empty (Inr onboarding_state))"

definition first_win_user :: env where
  "first_win_user = browser (\<lambda>k. respond 200 Map.empty
      (Inr (JObj [(''current_step'', JStr ''first_win''),
                  (''first_win_completed_at'', JStr ''2026-02-10T12:00:00Z'')])))"

definition not_found :: response where
  "not_found = \<lparr>status = 404, headers_get = [''x-request-id'' \<mapsto> ''req-1''],
                json = Inr (JObj [(''error'', JStr ''not_found''), (''status_code'', JNum 404),
                                  (''detail'', JStr ''Run not found''),
                                  (''request_id'', JStr ''req-1'')])\<rparr>"

definition html_page :: response where
  "html_page = \<lparr>status = 200, headers_get = Map.empty, json = Inl SyntaxError\<rparr>"

definition created_no_json :: response where
  "created_no_json = \<lparr>status = 201, headers_get = [''x-request-id'' \<mapsto> ''req-2''],
                      json = Inl SyntaxError\<rparr>"

definition consented :: onboarding_page where
  "consented = OnboardingPage\<lparr>checking_st := False, consentData := True, consentTerms := True\<rparr>"

definition cand :: "string \<Rightarrow> confidence \<Rightarrow> bool \<Rightarrow> nat \<Rightarrow> candidate" where
  "cand i c q u = \<lparr>cheat_code_id = i, confidence = c, is_quick_win = q, urgency_score = u\<rparr>"

section \<open>Properties\<close>

subsection \<open>lib/sample-transactions.ts\<close>

lemma map_enumerate_snd: "map (\<lambda>(i, t). f t) (enumerate n xs) = map f xs"
  by (induction xs arbitrary: n) simp_all

text \<open>
  C9. For every account id (and every clock), \<open>buildTransactionPayload\<close> returns exactly 10
  payloads, one per entry of \<open>SAMPLE_TRANSACTIONS\<close> in the same order; each payload carries
  the given account id, the currency USD, and the sample entry's description, amount and
  transaction type unchanged.
\<close>

theorem buildTransactionPayload_copies:
  "length (buildTransactionPayload clk aid) = 10
   \<and> length SAMPLE_TRANSACTIONS = 10
   \<and> map (\<lambda>p. (account_id p, currency p, raw_description p, amount p, transaction_type p))
         (buildTransactionPayload clk aid)
     = map (\<lambda>t. (aid, ''USD'', raw_description t, amount t, transaction_type t))
         SAMPLE_TRANSACTIONS"
proof -
  have len: "length SAMPLE_TRANSACTIONS = 10"
    by (simp add: SAMPLE_TRANSACTIONS_def)
  have "map (\<lambda>p. (account_id p, currency p, raw_description p, amount p, transaction_type p))
          (buildTransactionPayload clk aid)
        = map (\<lambda>(i, t). (aid, ''USD'', raw_description t, amount t, transaction_type t))
            (enumerate 0 SAMPLE_TRANSACTIONS)"
    unfolding buildTransactionPayload_def by (simp add: case_prod_unfold comp_def)
  also have "\<dots> = map (\<lambda>t. (aid, ''USD'', raw_description t, amount t, transaction_type t))
                     SAMPLE_TRANSACTIONS"
    by (rule map_enumerate_snd)
  finally show ?thesis
    using len by (simp add: buildTransactionPayload_def)
qed


subsection \<open>lib/api.ts\<close>

lemma request_world:
  "snd (request e path opts w) = w\<lparr>sent := sent w @ [\<lparr>method = method opts, body = body opts,
        headers = request_headers (getToken e w) (headers opts), url = BASE e @ path\<rparr>]\<rparr>"
  by (simp add: request_def Let_def split: fetch_outcome.splits sum.splits)

lemma api_world:
  "snd (api e c w) = w\<lparr>sent := sent w @ [api_sent e c w]\<rparr>"
  unfolding api_def request_world api_sent_def by (cases c) simp_all

lemma api_sent_length: "length (sent (snd (api e c w))) = Suc (length (sent w))"
  by (simp add: api_world)

lemma api_navigations: "navigations (snd (api e c w)) = navigations w"
  by (simp add: api_world)

lemma isApiError_ApiError: "isApiError (ApiError m r st)"
  by (simp add: isApiError_def ApiError_def)

text \<open>The two branches that build an error object throw an \<open>ApiError\<close>.\<close>

lemma request_network_failure:
  "net e (length (sent w)) = NetworkFailure \<Longrightarrow>
     isApiError (projl (fst (request e path opts w))) \<and> isl (fst (request e path opts w))
     \<and> field (projl (fst (request e path opts w))) ''status'' = JNum 0
     \<and> field (projl (fst (request e path opts w))) ''requestId'' = JNull"
  by (simp add: request_def Let_def isApiError_ApiError)
     (simp add: ApiError_def field_def of_str_or_null_def)

lemma request_not_ok:
  "net e (length (sent w)) = Responded res \<Longrightarrow> \<not> ok res \<Longrightarrow>
     isApiError (projl (fst (request e path opts w))) \<and> isl (fst (request e path opts w))"
  by (simp add: request_def Let_def isApiError_ApiError)

lemma error_message_cases:
  "(json res = Inr b \<and> truthy (field b ''detail'') \<longrightarrow> error_message res = field b ''detail'')
   \<and> (json res = Inr b \<and> \<not> truthy (field b ''detail'') \<and> truthy (field b ''message'')
        \<longrightarrow> error_message res = field b ''message'')
   \<and> (json res = Inr b \<and> \<not> truthy (field b ''detail'') \<and> \<not> truthy (field b ''message'')
        \<longrightarrow> error_message res = JStr (''Request failed ('' @ string_of_nat (status res) @ '')''))
   \<and> (json res = Inl ex
        \<longrightarrow> error_message res = JStr (''Request failed ('' @ string_of_nat (status res) @ '')''))"
proof (cases "b = JUndefined \<or> b = JNull")
  case True
  then show ?thesis
    by (auto simp: error_message_def field_def js_or_def Let_def)
next
  case False
  then obtain d m where "get_prop b ''detail'' = Some d" "get_prop b ''message'' = Some m"
    by (cases b) auto
  then show ?thesis
    by (auto simp: error_message_def field_def js_or_def Let_def)
qed

text \<open>
  C4, as amended. When \<open>fetch\<close> resolves with a response \<open>res\<close>:
  a non-2xx status makes \<open>request\<close> throw the \<open>ApiError\<close> whose status is \<open>res.status\<close>,
  whose requestId is the \<open>x-request-id\<close> header, or else the \<open>X-Request-ID\<close> header (null
  when neither is there), and whose message is the body's \<open>detail\<close> when that is truthy,
  else the body's \<open>message\<close> when that is truthy, else \<open>Request failed (<status>)\<close>, which
  is also the message when the body is not JSON.
  A 2xx response with status 204, or whose body parses as JSON, throws nothing:
  \<open>request\<close> returns \<open>{ data, requestId }\<close>, with \<open>null\<close> as data for 204 and the parsed
  body otherwise.
\<close>

theorem request_maps_response:
  assumes "net e (length (sent w)) = Responded res"
  shows
    "(\<not> ok res \<longrightarrow>
        fst (request e path opts w) =
          Inl (ApiError (error_message res)
                 (js_or_str (headers_get res ''x-request-id'') (headers_get res ''X-Request-ID''))
                 (status res)))
     \<and> (headers_get res ''x-request-id'' = None \<and> headers_get res ''X-Request-ID'' = None \<longrightarrow>
          js_or_str (headers_get res ''x-request-id'') (headers_get res ''X-Request-ID'') = None)
     \<and> (json res = Inr b \<and> truthy (field b ''detail'') \<longrightarrow> error_message res = field b ''detail'')
     \<and> (json res = Inr b \<and> \<not> truthy (field b ''detail'') \<and> truthy (field b ''message'')
          \<longrightarrow> error_message res = field b ''message'')
     \<and> (json res = Inr b \<and> \<not> truthy (field b ''detail'') \<and> \<not> truthy (field b ''message'')
          \<longrightarrow> error_message res = JStr (''Request failed ('' @ string_of_nat (status res) @ '')''))
     \<and> (json res = Inl ex
          \<longrightarrow> error_message res = JStr (''Request failed ('' @ string_of_nat (status res) @ '')''))
     \<and> (ok res \<and> status res = 204 \<longrightarrow>
          fst (request e path opts w) =
            Inr (JNull, js_or_str (headers_get res ''x-request-id'') (headers_get res ''X-Request-ID'')))
     \<and> (ok res \<and> status res \<noteq> 204 \<and> json res = Inr b \<longrightarrow>
          fst (request e path opts w) =
            Inr (b, js_or_str (headers_get res ''x-request-id'') (headers_get res ''X-Request-ID'')))"
proof -
  have thrown: "\<not> ok res \<longrightarrow>
        fst (request e path opts w) =
          Inl (ApiError (error_message res)
                 (js_or_str (headers_get res ''x-request-id'') (headers_get res ''X-Request-ID''))
                 (status res))"
    using assms by (simp add: request_def Let_def)
  have absent: "headers_get res ''x-request-id'' = None \<and> headers_get res ''X-Request-ID'' = None \<longrightarrow>
          js_or_str (headers_get res ''x-request-id'') (headers_get res ''X-Request-ID'') = None"
    by (simp add: js_or_str_def truthy_str_def)
  have no_content: "ok res \<and> status res = 204 \<longrightarrow>
          fst (request e path opts w) =
            Inr (JNull, js_or_str (headers_get res ''x-request-id'') (headers_get res ''X-Request-ID''))"
    using assms by (simp add: request_def Let_def)
  have parsed: "ok res \<and> status res \<noteq> 204 \<and> json res = Inr b \<longrightarrow>
          fst (request e path opts w) =
            Inr (b, js_or_str (headers_get res ''x-request-id'') (headers_get res ''X-Request-ID''))"
    using assms by (simp add: request_def Let_def)
  show ?thesis
    using thrown absent no_content parsed error_message_cases[of res b ex] by blast
qed

theorem request_maps_response_witness:
  "fst (request (browser (\<lambda>k. Responded not_found)) ''/cheat-codes/runs/9''
          (api_opts (Get ''/cheat-codes/runs/9'')) signed_in)
     = Inl (ApiError (JStr ''Run not found'') (Some ''req-1'') 404)
   \<and> fst (request new_user ''/onboarding/state'' (api_opts (Get ''/onboarding/state'')) signed_in)
     = Inr (onboarding_state, None)"
proof -
  have n1: "net (browser (\<lambda>k. Responded not_found)) (length (sent signed_in)) = Responded not_found"
    by (simp add: browser_def)
  have n2: "net new_user (length (sent signed_in))
              = Responded \<lparr>status = 200, headers_get = Map.empty, json = Inr onboarding_state\<rparr>"
    by (simp add: new_user_def browser_def respond_def)
  have d: "field (JObj [(''error'', JStr ''not_found''), (''status_code'', JNum 404),
                        (''detail'', JStr ''Run not found''), (''request_id'', JStr ''req-1'')])
             ''detail'' = JStr ''Run not found''"
    by (simp add: field_def)
  show ?thesis
    using request_maps_response[OF n1, where b = "JObj [(''error'', JStr ''not_found''),
              (''status_code'', JNum 404), (''detail'', JStr ''Run not found''),
              (''request_id'', JStr ''req-1'')]" and path = "''/cheat-codes/runs/9''"
              and opts = "api_opts (Get ''/cheat-codes/runs/9'')"]
          request_maps_response[OF n2, where b = onboarding_state
              and path = "''/onboarding/state''"
              and opts = "api_opts (Get ''/onboarding/state'')"]
          d
    by (simp add: not_found_def ok_def js_or_str_def truthy_str_def)
qed

text \<open>
  The claim as written fails on its last clause: a 2xx response whose body is not JSON
  makes \<open>request\<close> throw what \<open>res.json()\<close> rejects with.
\<close>

theorem request_2xx_throws_counterexample:
  "ok html_page
   \<and> fst (request (browser (\<lambda>k. Responded html_page)) ''/onboarding/state''
            (api_opts (Get ''/onboarding/state'')) signed_in) = Inl SyntaxError"
  by (simp add: request_def Let_def ok_def html_page_def browser_def signed_in_def fresh_world_def)

text \<open>
  C8. Every value \<open>request\<close> throws should satisfy \<open>isApiError\<close>. The network-failure
  branch and the non-2xx branch do (\<open>request_network_failure\<close>, \<open>request_not_ok\<close>); the
  success path does not guard \<open>res.json()\<close>: on a 201 whose body is not JSON, \<open>request\<close>
  throws the parser's error, which has no \<open>status\<close> and fails \<open>isApiError\<close>.
\<close>

theorem request_throws_what_json_rejects:
  "fst (request (browser (\<lambda>k. Responded created_no_json)) ''/accounts/manual''
          (api_opts (Post ''/accounts/manual'' None)) signed_in) = Inl SyntaxError
   \<and> \<not> isApiError SyntaxError"
  by (simp add: request_def Let_def ok_def created_no_json_def browser_def signed_in_def
        fresh_world_def isApiError_def SyntaxError_def)

text \<open>
  C10. For every non-empty token \<open>t\<close>: after \<open>setToken(t)\<close>, \<open>hasToken()\<close> is true and
  \<open>getToken()\<close> gives \<open>t\<close>; after \<open>clearToken()\<close>, \<open>hasToken()\<close> is false, and the request
  sent next carries no \<open>X-Session-Token\<close> header, through every method of \<open>api\<close> and for
  every \<open>request\<close> whose caller passes no such header itself.
\<close>

theorem token_roundtrip:
  "(setToken e t w = Inr w' \<and> t \<noteq> [] \<longrightarrow> hasToken e w' \<and> getToken e w' = Some t)
   \<and> (clearToken e w = Inr w' \<longrightarrow>
        \<not> hasToken e w'
        \<and> headers (last (sent (snd (api e c w')))) ''X-Session-Token'' = None
        \<and> (headers opts ''X-Session-Token'' = None \<longrightarrow>
             headers (last (sent (snd (request e path opts w')))) ''X-Session-Token'' = None))"
  by (auto simp: setToken_def clearToken_def hasToken_def getToken_def truthy_str_def
        api_world api_sent_def request_world request_headers_def map_add_def
      split: if_splits option.splits)

theorem token_roundtrip_witness:
  "setToken new_user ''tok'' fresh_world = Inr signed_in
   \<and> hasToken new_user signed_in \<and> getToken new_user signed_in = Some ''tok''
   \<and> clearToken new_user signed_in = Inr signed_out
   \<and> \<not> hasToken new_user signed_out
   \<and> headers (last (sent (snd (api new_user (Get ''/accounts'') signed_out)))) ''X-Session-Token''
       = None"
proof -
  have a: "setToken new_user ''tok'' fresh_world = Inr signed_in"
    by (simp add: setToken_def new_user_def browser_def signed_in_def fresh_world_def)
  have b: "clearToken new_user signed_in = Inr signed_out"
    by (simp add: clearToken_def new_user_def browser_def signed_in_def signed_out_def
          fresh_world_def)
  show ?thesis
    using a b
      token_roundtrip[of new_user "''tok''" fresh_world signed_in]
      token_roundtrip[of new_user "''tok''" signed_in signed_out "Get ''/accounts''"]
    by simp
qed

subsection \<open>middleware.ts\<close>

lemma matches_cheat: "matches [Lit ''cheat'', ZeroOrMore ''path''] (''cheat'' # rest)"
  by (induction rest) simp_all

lemma protected_matched:
  "p = [''home''] \<or> p = [''settings''] \<or> p = [''onboarding''] \<or> (\<exists>rest. p = ''cheat'' # rest)
   \<Longrightarrow> list_ex (\<lambda>m. matches m p) matcher"
  using matches_cheat by (auto simp: matcher_def)

text \<open>
  C7. For every request to \<open>/home\<close>, \<open>/settings\<close>, \<open>/onboarding\<close> or a path under \<open>/cheat\<close>:
  without a \<open>session_token\<close> cookie the answer is a redirect to \<open>/login\<close>; with the cookie
  the request proceeds.
\<close>

theorem middleware_guards_protected:
  assumes "pathname req = [''home''] \<or> pathname req = [''settings'']
           \<or> pathname req = [''onboarding''] \<or> (\<exists>rest. pathname req = ''cheat'' # rest)"
  shows "(cookies req ''session_token'' = None \<longrightarrow> serve req = Redirect (origin req @ ''/login''))
       \<and> (cookies req ''session_token'' \<noteq> None \<longrightarrow> serve req = NextResponse_next)"
  using protected_matched[OF assms] by (auto simp: serve_def middleware_def)

theorem middleware_guards_protected_witness:
  "serve \<lparr>origin = ''https://finitii.test'', pathname = [''cheat'', ''run'', ''42''],
          cookies = Map.empty\<rparr>
     = Redirect ''https://finitii.test/login''
   \<and> serve \<lparr>origin = ''https://finitii.test'', pathname = [''home''],
            cookies = [''session_token'' \<mapsto> ''tok'']\<rparr>
     = NextResponse_next"
  using middleware_guards_protected[of "\<lparr>origin = ''https://finitii.test'',
            pathname = [''cheat'', ''run'', ''42''], cookies = Map.empty\<rparr>"]
        middleware_guards_protected[of "\<lparr>origin = ''https://finitii.test'',
            pathname = [''home''], cookies = [''session_token'' \<mapsto> ''tok'']\<rparr>"]
  by simp

subsection \<open>Triples\<close>

lemma tripleI:
  "(\<And>s x s'. P s \<Longrightarrow> m s = (Inr x, s') \<Longrightarrow> Q s')
   \<Longrightarrow> (\<And>s err s'. P s \<Longrightarrow> m s = (Inl err, s') \<Longrightarrow> E s') \<Longrightarrow> triple P m Q E"
  unfolding triple_def by blast

lemma tripleD_ok: "triple P m Q E \<Longrightarrow> P s \<Longrightarrow> m s = (Inr x, s') \<Longrightarrow> Q s'"
  unfolding triple_def by blast

lemma tripleD_err: "triple P m Q E \<Longrightarrow> P s \<Longrightarrow> m s = (Inl err, s') \<Longrightarrow> E s'"
  unfolding triple_def by blast

lemma triple_return: "(\<And>s. P s \<Longrightarrow> Q s) \<Longrightarrow> triple P (io_return x) Q E"
  by (simp add: triple_def io_return_def)

lemma triple_throw: "(\<And>s. P s \<Longrightarrow> E s) \<Longrightarrow> triple P (io_throw x) Q E"
  by (simp add: triple_def io_throw_def)

lemma triple_bind:
  assumes "triple P m R E" and "\<And>x. triple R (f x) Q E"
  shows "triple P (io_bind m f) Q E"
proof (rule tripleI)
  fix s x s' assume P: "P s" and r: "io_bind m f s = (Inr x, s')"
  show "Q s'"
  proof (cases "m s")
    case (Pair r1 s1)
    show ?thesis
    proof (cases r1)
      case (Inl ex)
      with Pair r show ?thesis by (simp add: io_bind_def)
    next
      case (Inr y)
      with Pair r have "f y s1 = (Inr x, s')" by (simp add: io_bind_def)
      moreover have "R s1" using tripleD_ok[OF assms(1) P] Pair Inr by simp
      ultimately show ?thesis using tripleD_ok[OF assms(2)] by blast
    qed
  qed
next
  fix s err s' assume P: "P s" and r: "io_bind m f s = (Inl err, s')"
  show "E s'"
  proof (cases "m s")
    case (Pair r1 s1)
    show ?thesis
    proof (cases r1)
      case (Inl ex)
      with Pair r have "s1 = s'" by (simp add: io_bind_def)
      then show ?thesis using tripleD_err[OF assms(1) P] Pair Inl by simp
    next
      case (Inr y)
      with Pair r have "f y s1 = (Inl err, s')" by (simp add: io_bind_def)
      moreover have "R s1" using tripleD_ok[OF assms(1) P] Pair Inr by simp
      ultimately show ?thesis using tripleD_err[OF assms(2)] by blast
    qed
  qed
qed

lemma triple_then:
  "triple P m P E \<Longrightarrow> triple P k Q E \<Longrightarrow> triple P (io_then m k) Q E"
  unfolding io_then_def by (rule triple_bind)

lemma triple_bind_inv:
  "triple P m P E \<Longrightarrow> (\<And>x. triple P (f x) Q E) \<Longrightarrow> triple P (io_bind m f) Q E"
  by (rule triple_bind)

lemma triple_when:
  "triple P m P E \<Longrightarrow> triple P (io_when b m) P E"
  unfolding io_when_def by (auto intro: triple_then triple_return)

lemma triple_catch:
  "triple P m Q Q \<Longrightarrow> triple P (io_catch m d) Q E"
  unfolding triple_def io_catch_def by (auto split: prod.splits sum.splits)

lemma triple_if:
  "(b \<Longrightarrow> triple P m Q E) \<Longrightarrow> (\<not> b \<Longrightarrow> triple P k Q E) \<Longrightarrow> triple P (if b then m else k) Q E"
  by simp

lemma triple_read: "(\<And>s. P s \<Longrightarrow> Q s) \<Longrightarrow> (\<And>s. P s \<Longrightarrow> E s) \<Longrightarrow> triple P (read v k) Q E"
  by (auto simp: read_def intro: triple_return triple_throw split: option.splits)

lemma triple_set_page: "(\<And>s. P s \<Longrightarrow> Q (f (fst s), snd s)) \<Longrightarrow> triple P (set_page f) Q E"
  by (simp add: triple_def set_page_def)

lemma triple_navigate:
  assumes "\<And>s. P s \<Longrightarrow> Q (router n s)"
  shows "triple P (navigate n) Q E"
proof (rule tripleI)
  fix s :: "'a \<times> world" and x :: unit and s'
  assume "P s" and "navigate n s = (Inr x, s')"
  then show "Q s'" using assms[of s] by (simp add: navigate_def)
next
  fix s :: "'a \<times> world" and err s'
  assume "navigate n s = (Inl err, s' :: 'a \<times> world)"
  then show "E s'" by (simp add: navigate_def)
qed

lemma call_state:
  "call e c s = (r, s') \<Longrightarrow> s' = (fst s, (snd s)\<lparr>sent := sent (snd s) @ [api_sent e c (snd s)]\<rparr>)"
  using api_world[of e c "snd s"]
  by (auto simp: call_def split: prod.splits sum.splits)

lemma triple_call:
  assumes "\<And>s. P s \<Longrightarrow> Q (fst s, (snd s)\<lparr>sent := sent (snd s) @ [api_sent e c (snd s)]\<rparr>)"
    and "\<And>s. P s \<Longrightarrow> E (fst s, (snd s)\<lparr>sent := sent (snd s) @ [api_sent e c (snd s)]\<rparr>)"
  shows "triple P (call e c) Q E"
  by (rule tripleI) (auto dest!: call_state intro: assms)

lemma tcf:
  assumes "triple P tr Q E" and "P s"
    and "\<And>s'. Q s' \<Longrightarrow> R (fin s')" and "\<And>err s'. E s' \<Longrightarrow> R (fin (handler err s'))"
  shows "R (try_catch_finally tr handler fin s)"
proof (cases "tr s")
  case (Pair r s')
  then show ?thesis
    using tripleD_ok[OF assms(1,2)] tripleD_err[OF assms(1,2)] assms(3,4)
    by (cases r) (auto simp: try_catch_finally_def)
qed

subsection \<open>app/onboarding/page.tsx: AI-memory consent\<close>

lemma body_api_sent: "body (api_sent e c w) = body (api_opts c)"
  by (simp add: api_sent_def)

lemma quiet_call:
  "\<not> (case body (api_opts c) of None \<Rightarrow> False | Some b \<Rightarrow> field b ''consent_type'' = JStr ''ai_memory'')
   \<Longrightarrow> triple quiet (call e c) quiet quiet"
  by (rule triple_call) (simp_all add: quiet_def ai_memory_grant_def body_api_sent)

lemma quiet_call_other:
  "map_of ps ''consent_type'' = None \<Longrightarrow> triple quiet (call e (Post p (Some (JObj ps)))) quiet quiet"
  by (rule quiet_call) (simp add: field_def)

lemma quiet_call_none [simp]: "triple quiet (call e (Post p None)) quiet quiet"
  by (rule quiet_call) simp

lemma quiet_call_get [simp]: "triple quiet (call e (Get p)) quiet quiet"
  by (rule quiet_call) simp

lemma quiet_grant:
  "t \<noteq> ''ai_memory'' \<Longrightarrow> triple quiet (call e (consent_grant t)) quiet quiet"
  by (rule quiet_call) (simp add: consent_grant_def field_def)

lemma quiet_set:
  "(\<And>p. consentAi (f p) = consentAi p) \<Longrightarrow> triple quiet (set_page f) quiet E"
  by (rule triple_set_page) (simp add: quiet_def)

lemma quiet_on_page:
  "(\<And>p. consentAi (f p) = consentAi p) \<Longrightarrow> quiet s \<Longrightarrow> quiet (on_page f s)"
  by (simp add: quiet_def on_page_def)

lemma quiet_router: "quiet s \<Longrightarrow> quiet (router n s)"
  by (simp add: quiet_def router_def)

lemma quiet_submitConsent_try:
  assumes "\<not> consentAi p0"
  shows "triple quiet (submitConsent_try e p0) quiet quiet"
proof -
  have off: "io_when (consentAi p0) m = io_return ()" for m :: "(onboarding_page \<times> world, jsval) io"
    using assms by (simp add: io_when_def)
  show ?thesis
    unfolding submitConsent_try_def off
    by (intro triple_then triple_when quiet_grant quiet_set quiet_call_none triple_return)
       simp_all
qed

lemma quiet_return [simp]: "triple quiet (io_return x) quiet E"
  by (rule triple_return)

lemma quiet_read [simp]: "triple quiet (read v k) quiet quiet"
  by (rule triple_read)

lemma quiet_navigate [simp]: "triple quiet (navigate n) quiet E"
  by (rule triple_navigate) (rule quiet_router)

lemma quiet_post_all:
  "list_all (\<lambda>b. field b ''consent_type'' \<noteq> JStr ''ai_memory'') bs
   \<Longrightarrow> triple quiet (post_all e bs n) quiet quiet"
proof (induction bs arbitrary: n)
  case Nil
  show ?case by simp
next
  case (Cons b bs)
  have "triple quiet (call e (Post ''/transactions'' (Some b))) quiet quiet"
    using Cons.prems by (intro quiet_call) simp
  moreover have "triple quiet (post_all e bs (Suc n)) quiet quiet"
    using Cons by simp
  ultimately show ?case by (simp add: triple_then)
qed

lemma payloads_plain:
  "list_all (\<lambda>b. field b ''consent_type'' \<noteq> JStr ''ai_memory'') (map payload_json ts)"
  by (induction ts) (simp_all add: payload_json_def field_def)

lemma quiet_getFirstAccountId: "triple quiet (getFirstAccountId e) quiet quiet"
  unfolding getFirstAccountId_def
proof (intro triple_catch triple_bind_inv quiet_call_get)
  fix data
  show "triple quiet
          (case data of
             JArr (x # xs) \<Rightarrow>
               io_bind (read x ''id'') (\<lambda>i.
               io_then (set_page (\<lambda>p. p\<lparr>accountId := i\<rparr>)) (io_return i))
           | _ \<Rightarrow> io_return JNull) quiet quiet"
    by (auto split: jsval.splits list.splits
          intro!: triple_bind_inv triple_then quiet_set quiet_read quiet_return)
qed

lemma quiet_addSample: "triple quiet (addSampleTransactions_try e p0) quiet quiet"
  unfolding addSampleTransactions_try_def
  by (intro triple_bind_inv triple_if quiet_return quiet_getFirstAccountId quiet_set
        quiet_post_all payloads_plain) simp_all

lemma quiet_submitAccount: "triple quiet (submitAccount_try e p0) quiet quiet"
  unfolding submitAccount_try_def
  by (intro triple_bind_inv triple_then quiet_call_other quiet_read quiet_set quiet_call_none)
     simp_all

lemma quiet_submitTransactions: "triple quiet (submitTransactions_try e) quiet quiet"
  unfolding submitTransactions_try_def
  by (intro triple_then quiet_call_none quiet_set) simp_all

lemma quiet_addConstraint: "triple quiet (addConstraint_try e p0) quiet quiet"
  unfolding addConstraint_try_def
  by (intro triple_then quiet_call_other quiet_set) simp_all

lemma quiet_submitGoals: "triple quiet (submitGoals_try e p0) quiet quiet"
  unfolding submitGoals_try_def
  by (intro triple_bind_inv triple_then quiet_call_other quiet_set quiet_call_none) simp_all

lemma quiet_startRun: "triple quiet (startRun_try e recId) quiet quiet"
  unfolding startRun_try_def
  by (intro triple_bind_inv quiet_call_other quiet_read quiet_navigate) simp_all

lemma quiet_mount_try: "triple quiet (mount_try e) quiet quiet"
  unfolding mount_try_def
  by (intro triple_bind_inv quiet_call_get quiet_read triple_if quiet_navigate quiet_set quiet_return)
     simp_all

lemma consentAi_handleError [simp]: "consentAi (handleError err p) = consentAi p"
  by (simp add: handleError_def show_error_def)

lemma consentAi_clearError [simp]: "consentAi (clearError p) = consentAi p"
  by (simp add: clearError_def)

lemma quiet_submit:
  assumes "triple quiet tr quiet quiet" and "quiet s"
  shows "quiet (submit tr s)"
  unfolding submit_def
proof (rule tcf[where R = quiet, OF assms(1)])
  show "quiet (begin_submit s)"
    unfolding begin_submit_def using assms(2) by (intro quiet_on_page) simp_all
qed (simp_all add: quiet_on_page)

lemma quiet_mount: "quiet s \<Longrightarrow> quiet (mount e s)"
  unfolding mount_def
  by (auto intro!: quiet_router tcf[where R = quiet, OF quiet_mount_try] quiet_on_page)

lemma quiet_addConstraint_h: "quiet s \<Longrightarrow> quiet (addConstraint e s)"
  unfolding addConstraint_def
  by (auto intro!: tcf[where R = quiet, OF quiet_addConstraint] quiet_on_page)

lemma quiet_dispatch:
  "quiet s \<Longrightarrow> ev \<noteq> CheckAi True \<Longrightarrow> quiet (dispatch e ev s)"
proof (cases ev)
  case ClickContinue
  assume q: "quiet s"
  then have "\<not> consentAi (fst s)" by (simp add: quiet_def)
  then show ?thesis using q ClickContinue
    by (simp add: onContinue_def submitConsent_def submitAccount_def submitTransactions_def
          submitGoals_def quiet_submit quiet_submitConsent_try quiet_submitAccount
          quiet_submitTransactions quiet_submitGoals)
next
  case (CheckAi b)
  assume "quiet s" "ev \<noteq> CheckAi True"
  with CheckAi show ?thesis by (cases b) (simp_all add: quiet_def on_page_def)
next
  case (ClickStart i)
  assume "quiet s"
  with ClickStart show ?thesis
    by (simp add: startRun_def quiet_submit quiet_startRun split: option.splits)
qed (simp_all add: quiet_on_page addSampleTransactions_def quiet_submit quiet_addSample
       quiet_addConstraint_h)

lemma quiet_user_events:
  "quiet s \<Longrightarrow> CheckAi True \<notin> set evs \<Longrightarrow> quiet (user_events e evs s)"
proof (induction evs arbitrary: s)
  case Nil
  then show ?case by simp
next
  case (Cons ev evs)
  from Cons.prems have "quiet (user_event e ev s)"
    by (auto simp: user_event_def intro: quiet_dispatch)
  with Cons show ?case by simp
qed

text \<open>
  C3. AI-memory consent is off by default: the page starts with the AI-memory box
  unchecked, and over a whole visit (the mount effect, then any sequence of user
  actions) in which the user never checks that box, no request granting \<open>ai_memory\<close>
  consent is sent, whatever else the user submits and whatever the backend answers.
\<close>

theorem ai_memory_consent_off_by_default:
  "\<not> consentAi OnboardingPage
   \<and> (CheckAi True \<notin> set evs \<and> \<not> list_ex ai_memory_grant (sent w)
        \<longrightarrow> \<not> list_ex ai_memory_grant (sent (snd (visit e evs w))))"
proof -
  have init: "\<not> consentAi OnboardingPage" by (simp add: OnboardingPage_def)
  { assume a: "CheckAi True \<notin> set evs" and b: "\<not> list_ex ai_memory_grant (sent w)"
    from init b have "quiet (OnboardingPage, w)" by (simp add: quiet_def)
    then have "quiet (visit e evs w)"
      unfolding visit_def by (intro quiet_user_events quiet_mount a)
    then have "\<not> list_ex ai_memory_grant (sent (snd (visit e evs w)))"
      by (simp add: quiet_def) }
  with init show ?thesis by blast
qed

theorem ai_memory_consent_off_by_default_witness:
  "\<not> list_ex ai_memory_grant
       (sent (snd (visit new_user [CheckData True, CheckTerms True, ClickContinue] signed_in)))
   \<and> step (fst (visit new_user [CheckData True, CheckTerms True, ClickContinue] signed_in)) = 1"
proof -
  have reached:
    "step (fst (visit new_user [CheckData True, CheckTerms True, ClickContinue] signed_in)) = 1"
    by code_simp
  show ?thesis
    using reached
      ai_memory_consent_off_by_default[of "[CheckData True, CheckTerms True, ClickContinue]"
        signed_in new_user]
    by (simp add: signed_in_def fresh_world_def)
qed

subsection \<open>app/onboarding/page.tsx: the step index\<close>

lemma at_call [simp]: "triple (at_step k) (call e c) (at_step k) (at_step k)"
  by (rule triple_call) (simp_all add: at_step_def)

lemma at_return [simp]: "triple (at_step k) (io_return x) (at_step k) E"
  by (rule triple_return)

lemma at_read [simp]: "triple (at_step k) (read v n) (at_step k) (at_step k)"
  by (rule triple_read)

lemma at_navigate [simp]: "triple (at_step k) (navigate n) (at_step k) E"
  by (rule triple_navigate) (simp add: at_step_def router_def)

lemma at_set: "(\<And>p. step (f p) = step p) \<Longrightarrow> triple (at_step k) (set_page f) (at_step k) E"
  by (rule triple_set_page) (simp add: at_step_def)

lemma at_set_step [simp]: "triple (at_step k) (set_page (\<lambda>p. p\<lparr>step := j\<rparr>)) (at_step j) E"
  by (rule triple_set_page) (simp add: at_step_def)

lemma at_when: "triple (at_step k) (io_when b (call e c)) (at_step k) (at_step k)"
  by (rule triple_when) simp

lemma at_submitConsent_try: "triple (at_step k) (submitConsent_try e p0) (at_step 1) (at_step k)"
  unfolding submitConsent_try_def
  by (intro triple_then at_when at_call at_set_step)

lemma at_submitAccount_try: "triple (at_step k) (submitAccount_try e p0) (at_step 2) (at_step k)"
  unfolding submitAccount_try_def
  by (intro triple_bind_inv triple_then at_call at_read at_set at_set_step) simp

lemma at_submitTransactions_try: "triple (at_step k) (submitTransactions_try e) (at_step 3) (at_step k)"
  unfolding submitTransactions_try_def
  by (intro triple_then at_call at_set_step)

lemma at_submitGoals_try: "triple (at_step k) (submitGoals_try e p0) (at_step 4) (at_step k)"
  unfolding submitGoals_try_def
  by (intro triple_bind_inv triple_then at_call at_set at_set_step) simp

lemma at_post_all: "triple (at_step k) (post_all e bs n) (at_step k) (at_step k)"
  by (induction bs arbitrary: n) (simp_all add: triple_then)

lemma at_getFirstAccountId: "triple (at_step k) (getFirstAccountId e) (at_step k) (at_step k)"
  unfolding getFirstAccountId_def
proof (intro triple_catch triple_bind_inv at_call)
  fix data
  show "triple (at_step k)
          (case data of
             JArr (x # xs) \<Rightarrow>
               io_bind (read x ''id'') (\<lambda>i.
               io_then (set_page (\<lambda>p. p\<lparr>accountId := i\<rparr>)) (io_return i))
           | _ \<Rightarrow> io_return JNull) (at_step k) (at_step k)"
    by (auto split: jsval.splits list.splits
          intro!: triple_bind_inv triple_then at_set at_read at_return)
qed

lemma at_addSample: "triple (at_step k) (addSampleTransactions_try e p0) (at_step k) (at_step k)"
  unfolding addSampleTransactions_try_def
  by (intro triple_bind_inv triple_if at_return at_getFirstAccountId at_set at_post_all) simp_all

lemma at_addConstraint: "triple (at_step k) (addConstraint_try e p0) (at_step k) (at_step k)"
  unfolding addConstraint_try_def
  by (intro triple_then at_call at_set) simp

lemma at_startRun: "triple (at_step k) (startRun_try e recId) (at_step k) (at_step k)"
  unfolding startRun_try_def
  by (intro triple_bind_inv at_call at_read at_navigate)

lemma step_handleError [simp]: "step (handleError err p) = step p"
  by (simp add: handleError_def show_error_def)

lemma step_clearError [simp]: "step (clearError p) = step p"
  by (simp add: clearError_def)

lemma step_begin_submit [simp]: "step (fst (begin_submit s)) = step (fst s)"
  by (simp add: begin_submit_def on_page_def)

text \<open>
  A submit handler leaves the step its try block reaches when that returns, the old step
  when it throws.
\<close>

lemma submit_step:
  assumes "triple (at_step (step (fst s))) tr (at_step j) (at_step (step (fst s)))"
  shows "step (fst (submit tr s)) =
           (case fst (tr (begin_submit s)) of Inr x \<Rightarrow> j | Inl err \<Rightarrow> step (fst s))"
proof -
  obtain r s' where Pair: "tr (begin_submit s) = (r, s')"
    using prod.exhaust by blast
  have P: "at_step (step (fst s)) (begin_submit s)" by (simp add: at_step_def)
  show ?thesis
  proof (cases r)
    case (Inl err)
    with Pair have "at_step (step (fst s)) s'" using tripleD_err[OF assms P] by simp
    with Pair Inl show ?thesis
      by (simp add: submit_def try_catch_finally_def on_page_def at_step_def)
  next
    case (Inr x)
    with Pair have "at_step j s'" using tripleD_ok[OF assms P] by simp
    with Pair Inr show ?thesis
      by (simp add: submit_def try_catch_finally_def on_page_def at_step_def)
  qed
qed


lemma wizard_step_le: "wizard_step s \<le> 4"
  by (auto simp: wizard_step_def step_map_def split: jsval.splits option.splits)

lemma in_wizard_mount_try: "triple in_wizard (mount_try e) in_wizard in_wizard"
  unfolding mount_try_def
  by (intro triple_bind_inv triple_if triple_call triple_read triple_navigate triple_set_page
        triple_return)
     (simp_all add: in_wizard_def router_def wizard_step_le)

lemma mount_step: "step (fst (mount e (OnboardingPage, w))) \<le> 4"
proof -
  have start: "in_wizard (OnboardingPage, w)" by (simp add: in_wizard_def OnboardingPage_def)
  have "in_wizard (mount e (OnboardingPage, w))"
  proof (cases "hasToken e w")
    case False
    with start show ?thesis by (simp add: mount_def in_wizard_def router_def)
  next
    case True
    have "in_wizard (try_catch_finally (mount_try e) (\<lambda>err s'. s')
             (on_page (\<lambda>p. p\<lparr>checking_st := False\<rparr>)) (OnboardingPage, w))"
      by (rule tcf[where R = in_wizard, OF in_wizard_mount_try start])
         (simp_all add: in_wizard_def on_page_def)
    with True show ?thesis by (simp add: mount_def)
  qed
  then show ?thesis by (simp add: in_wizard_def)
qed

lemma submitConsent_step:
  "step (fst (submitConsent e s)) =
     (case fst (submitConsent_try e (fst s) (begin_submit s)) of Inr x \<Rightarrow> 1 | Inl err \<Rightarrow> step (fst s))"
  unfolding submitConsent_def by (rule submit_step[OF at_submitConsent_try])

lemma submitAccount_step:
  "step (fst (submitAccount e s)) =
     (case fst (submitAccount_try e (fst s) (begin_submit s)) of Inr x \<Rightarrow> 2 | Inl err \<Rightarrow> step (fst s))"
  unfolding submitAccount_def by (rule submit_step[OF at_submitAccount_try])

lemma submitTransactions_step:
  "step (fst (submitTransactions e s)) =
     (case fst (submitTransactions_try e (begin_submit s)) of Inr x \<Rightarrow> 3 | Inl err \<Rightarrow> step (fst s))"
  unfolding submitTransactions_def by (rule submit_step[OF at_submitTransactions_try])

lemma submitGoals_step:
  "step (fst (submitGoals e s)) =
     (case fst (submitGoals_try e (fst s) (begin_submit s)) of Inr x \<Rightarrow> 4 | Inl err \<Rightarrow> step (fst s))"
  unfolding submitGoals_def by (rule submit_step[OF at_submitGoals_try])

lemma addSample_step: "step (fst (addSampleTransactions e s)) = step (fst s)"
  unfolding addSampleTransactions_def
  by (simp add: submit_step[OF at_addSample] split: sum.splits)

lemma startRun_step: "step (fst (startRun e r s)) = step (fst s)"
  unfolding startRun_def
  by (simp add: submit_step[OF at_startRun] split: sum.splits)

lemma addConstraint_step: "step (fst (addConstraint e s)) = step (fst s)"
proof (cases "trim (constraintLabel (fst s)) = []")
  case True
  then show ?thesis by (simp add: addConstraint_def)
next
  case False
  have "at_step (step (fst s)) (on_page clearError s)"
    by (simp add: at_step_def on_page_def)
  then have "at_step (step (fst s))
          (try_catch_finally (addConstraint_try e (fst s)) (\<lambda>err. on_page (handleError err))
             (\<lambda>s'. s') (on_page clearError s))"
    by (rule tcf[where R = "at_step (step (fst s))", OF at_addConstraint])
       (simp_all add: at_step_def on_page_def)
  with False show ?thesis by (simp add: addConstraint_def at_step_def)
qed

lemma onContinue_step:
  "step (fst (onContinue e s)) = step (fst s)
   \<or> (step (fst s) < 4 \<and> step (fst (onContinue e s)) = Suc (step (fst s)))"
  by (auto simp: onContinue_def submitConsent_step submitAccount_step submitTransactions_step
        submitGoals_step split: sum.splits)

lemma dispatch_step:
  "step (fst (dispatch e ev s)) = step (fst s)
   \<or> (ev = ClickContinue \<and> step (fst s) < 4 \<and> step (fst (dispatch e ev s)) = Suc (step (fst s)))"
proof (cases ev)
  case ClickContinue
  then show ?thesis using onContinue_step[of e s] by auto
qed (auto simp: on_page_def addSample_step addConstraint_step startRun_step split: option.splits)

lemma user_event_step:
  "step (fst (user_event e ev s)) = step (fst s)
   \<or> (ev = ClickContinue \<and> step (fst s) < 4 \<and> step (fst (user_event e ev s)) = Suc (step (fst s)))"
  using dispatch_step[of e ev s] by (simp add: user_event_def)

lemma user_events_mono:
  "step (fst s) \<le> step (fst (user_events e evs s))
   \<and> (step (fst s) \<le> 4 \<longrightarrow> step (fst (user_events e evs s)) \<le> 4)"
proof (induction evs arbitrary: s)
  case Nil
  show ?case by simp
next
  case (Cons ev evs)
  have "step (fst s) \<le> step (fst (user_event e ev s))
        \<and> (step (fst s) \<le> 4 \<longrightarrow> step (fst (user_event e ev s)) \<le> 4)"
    using user_event_step[of e ev s] by auto
  with Cons.IH[of "user_event e ev s"] show ?case by auto
qed

lemma consent_gate:
  "step (fst s) = 0 \<Longrightarrow> \<not> (consentData (fst s) \<and> consentTerms (fst s))
   \<Longrightarrow> user_event e ClickContinue s = s"
  by (auto simp: user_event_def continue_disabled_def)

text \<open>
  C5. The wizard only moves forward through the steps 0 to 4. The page starts at step 0,
  and the mount effect leaves a step of at most 4 when the state request fails or gives a
  \<open>current_step\<close> that is one of the backend's step names or absent; over every sequence
  of user actions, from any state, the step never decreases and stays at most 4; one
  action changes it by nothing or, for
  Continue below step 4, by exactly one; Continue at step \<open>k\<close> advances to \<open>k + 1\<close> when
  the step's submission returns and leaves \<open>k\<close> when it throws; and at step 0 Continue
  does nothing unless both the data-access and the terms boxes are checked.
\<close>

theorem wizard_only_moves_forward:
  "step OnboardingPage = 0
   \<and> ((case fst (api e (Get ''/onboarding/state'') w) of
          Inl err \<Rightarrow> True
        | Inr r \<Rightarrow> step_name_or_absent (field (fst r) ''current_step''))
        \<longrightarrow> step (fst (mount e (OnboardingPage, w))) \<le> 4)
   \<and> step (fst s) \<le> step (fst (user_events e evs s))
   \<and> (step (fst s) \<le> 4 \<longrightarrow> step (fst (user_events e evs s)) \<le> 4)
   \<and> (step (fst (user_event e ev s)) = step (fst s)
        \<or> ev = ClickContinue \<and> step (fst s) < 4
            \<and> step (fst (user_event e ev s)) = Suc (step (fst s)))
   \<and> (step (fst s) = 0 \<longrightarrow>
         step (fst (onContinue e s)) =
           (case fst (submitConsent_try e (fst s) (begin_submit s)) of Inr x \<Rightarrow> Suc (step (fst s)) | Inl err \<Rightarrow> step (fst s)))
   \<and> (step (fst s) = 1 \<longrightarrow>
         step (fst (onContinue e s)) =
           (case fst (submitAccount_try e (fst s) (begin_submit s)) of Inr x \<Rightarrow> Suc (step (fst s)) | Inl err \<Rightarrow> step (fst s)))
   \<and> (step (fst s) = 2 \<longrightarrow>
         step (fst (onContinue e s)) =
           (case fst (submitTransactions_try e (begin_submit s)) of Inr x \<Rightarrow> Suc (step (fst s)) | Inl err \<Rightarrow> step (fst s)))
   \<and> (step (fst s) = 3 \<longrightarrow>
         step (fst (onContinue e s)) =
           (case fst (submitGoals_try e (fst s) (begin_submit s)) of Inr x \<Rightarrow> Suc (step (fst s)) | Inl err \<Rightarrow> step (fst s)))
   \<and> (step (fst s) = 0 \<and> \<not> (consentData (fst s) \<and> consentTerms (fst s)) \<longrightarrow>
         user_event e ClickContinue s = s)"
proof -
  have a: "step OnboardingPage = 0" by (simp add: OnboardingPage_def)
  have k0: "step (fst s) = 0 \<longrightarrow>
         step (fst (onContinue e s)) =
           (case fst (submitConsent_try e (fst s) (begin_submit s)) of Inr x \<Rightarrow> Suc (step (fst s)) | Inl err \<Rightarrow> step (fst s))"
    by (simp add: onContinue_def submitConsent_step split: sum.splits)
  have k1: "step (fst s) = 1 \<longrightarrow>
         step (fst (onContinue e s)) =
           (case fst (submitAccount_try e (fst s) (begin_submit s)) of Inr x \<Rightarrow> Suc (step (fst s)) | Inl err \<Rightarrow> step (fst s))"
    by (simp add: onContinue_def submitAccount_step split: sum.splits)
  have k2: "step (fst s) = 2 \<longrightarrow>
         step (fst (onContinue e s)) =
           (case fst (submitTransactions_try e (begin_submit s)) of Inr x \<Rightarrow> Suc (step (fst s)) | Inl err \<Rightarrow> step (fst s))"
    by (simp add: onContinue_def submitTransactions_step split: sum.splits)
  have k3: "step (fst s) = 3 \<longrightarrow>
         step (fst (onContinue e s)) =
           (case fst (submitGoals_try e (fst s) (begin_submit s)) of Inr x \<Rightarrow> Suc (step (fst s)) | Inl err \<Rightarrow> step (fst s))"
    by (simp add: onContinue_def submitGoals_step split: sum.splits)
  show ?thesis
    using a mount_step[of e w] user_events_mono[of s e evs] user_event_step[of e ev s]
      k0 k1 k2 k3 consent_gate[of s e]
    by blast
qed

theorem wizard_only_moves_forward_witness:
  "step (fst (mount new_user (OnboardingPage, signed_in))) \<le> 4
   \<and> step (fst (onContinue new_user (consented, signed_in))) = 1
   \<and> step (fst (onContinue new_user (consented\<lparr>step := 1\<rparr>, signed_in))) = 2
   \<and> step (fst (onContinue new_user (consented\<lparr>step := 2\<rparr>, signed_in))) = 3
   \<and> step (fst (onContinue new_user (consented\<lparr>step := 3\<rparr>, signed_in))) = 4
   \<and> step (fst (onContinue (browser (\<lambda>k. NetworkFailure)) (consented, signed_in))) = 0
   \<and> user_event new_user ClickContinue (OnboardingPage\<lparr>checking_st := False\<rparr>, signed_in)
       = (OnboardingPage\<lparr>checking_st := False\<rparr>, signed_in)
   \<and> step (fst (user_events new_user [ClickContinue, ClickContinue] (consented, signed_in))) \<le> 4"
proof -
  have r0: "fst (submitConsent_try new_user consented (begin_submit (consented, signed_in)))
              = Inr ()"
    by code_simp
  have r1: "fst (submitAccount_try new_user (consented\<lparr>step := 1\<rparr>)
                   (begin_submit (consented\<lparr>step := 1\<rparr>, signed_in))) = Inr ()"
    by code_simp
  have r2: "fst (submitTransactions_try new_user
                   (begin_submit (consented\<lparr>step := 2\<rparr>, signed_in))) = Inr ()"
    by code_simp
  have r3: "fst (submitGoals_try new_user (consented\<lparr>step := 3\<rparr>)
                   (begin_submit (consented\<lparr>step := 3\<rparr>, signed_in))) = Inr ()"
    by code_simp
  have f0: "isl (fst (submitConsent_try (browser (\<lambda>k. NetworkFailure)) consented
                        (begin_submit (consented, signed_in))))"
    by code_simp
  have s0: "step consented = 0"
    by (simp add: consented_def OnboardingPage_def)
  have c0: "\<not> consentData (OnboardingPage\<lparr>checking_st := False\<rparr>)"
    by (simp add: OnboardingPage_def)
  have named: "case fst (api new_user (Get ''/onboarding/state'') signed_in) of
                 Inl err \<Rightarrow> True
               | Inr r \<Rightarrow> step_name_or_absent (field (fst r) ''current_step'')"
    by code_simp
  have m0: "step (fst (mount new_user (OnboardingPage, signed_in))) \<le> 4"
    using wizard_only_moves_forward[where e = new_user and w = signed_in] named
    by simp
  have k0: "step (fst (onContinue new_user (consented, signed_in))) = 1"
    using wizard_only_moves_forward[where e = new_user and s = "(consented, signed_in)"] r0 s0
    by simp
  have k1: "step (fst (onContinue new_user (consented\<lparr>step := 1\<rparr>, signed_in))) = 2"
    using wizard_only_moves_forward[where e = new_user
            and s = "(consented\<lparr>step := 1\<rparr>, signed_in)"] r1
    by simp
  have k2: "step (fst (onContinue new_user (consented\<lparr>step := 2\<rparr>, signed_in))) = 3"
    using wizard_only_moves_forward[where e = new_user
            and s = "(consented\<lparr>step := 2\<rparr>, signed_in)"] r2
    by simp
  have k3: "step (fst (onContinue new_user (consented\<lparr>step := 3\<rparr>, signed_in))) = 4"
    using wizard_only_moves_forward[where e = new_user
            and s = "(consented\<lparr>step := 3\<rparr>, signed_in)"] r3
    by simp
  have kf: "step (fst (onContinue (browser (\<lambda>k. NetworkFailure)) (consented, signed_in))) = 0"
    using wizard_only_moves_forward[where e = "browser (\<lambda>k. NetworkFailure)"
            and s = "(consented, signed_in)"] f0 s0
    by (cases "fst (submitConsent_try (browser (\<lambda>k. NetworkFailure)) consented
                      (begin_submit (consented, signed_in)))") simp_all
  have gate: "user_event new_user ClickContinue (OnboardingPage\<lparr>checking_st := False\<rparr>, signed_in)
                = (OnboardingPage\<lparr>checking_st := False\<rparr>, signed_in)"
    using wizard_only_moves_forward[where e = new_user
            and s = "(OnboardingPage\<lparr>checking_st := False\<rparr>, signed_in)"] c0
    by (simp add: OnboardingPage_def)
  have bound: "step (fst (user_events new_user [ClickContinue, ClickContinue]
                 (consented, signed_in))) \<le> 4"
    using wizard_only_moves_forward[where e = new_user and s = "(consented, signed_in)"
            and evs = "[ClickContinue, ClickContinue]"] s0
    by simp
  show ?thesis
    using m0 k0 k1 k2 k3 kf gate bound by blast
qed

subsection \<open>app/home/page.tsx and the run page: the First Win gate\<close>

text \<open>The gate of the home page, as a function of what the state request gave.\<close>

lemma home_gate_redirects:
  assumes tok: "hasToken e w"
    and st: "fst (api e (Get ''/onboarding/state'') w) = Inr (JObj ps, rid)"
    and nofw: "\<not> truthy (field (JObj ps) ''first_win_completed_at'')"
    and notdone: "field (JObj ps) ''current_step'' \<noteq> JStr ''completed''"
  shows "home_load e w =
           (HomePage\<lparr>loading := False\<rparr>,
            (snd (api e (Get ''/onboarding/state'') w))
              \<lparr>navigations := navigations w @ [Replace ''/onboarding'']\<rparr>)"
proof -
  obtain w1 where w1: "api e (Get ''/onboarding/state'') w = (Inr (JObj ps, rid), w1)"
    using st by (cases "api e (Get ''/onboarding/state'') w") auto
  have nav: "navigations w1 = navigations w"
    using api_navigations[of e "Get ''/onboarding/state''" w] w1 by simp
  have "checkOnboardingAndLoad_try e (HomePage, w)
          = (Inr (), router (Replace ''/onboarding'') (HomePage, w1))"
    using w1 nofw notdone
    by (simp add: checkOnboardingAndLoad_try_def io_bind_def call_def read_def io_return_def
          navigate_def field_def split: option.splits)
  then show ?thesis
    using tok w1 nav
    by (simp add: home_load_def checkOnboardingAndLoad_def try_catch_finally_def on_page_def
          router_def)
qed

lemma home_catch_sent: "sent (snd (home_catch err s)) = sent (snd s)"
  by (simp add: home_catch_def router_def on_page_def)

lemma home_loads_only_past_gate:
  assumes more: "Suc (length (sent w)) < length (sent (snd (home_load e w)))"
  shows "case fst (api e (Get ''/onboarding/state'') w) of
           Inl err \<Rightarrow> False
         | Inr r \<Rightarrow> truthy (field (fst r) ''first_win_completed_at'')
                    \<or> field (fst r) ''current_step'' = JStr ''completed''"
proof -
  obtain r w1 where w1: "api e (Get ''/onboarding/state'') w = (r, w1)"
    using prod.exhaust by blast
  have len: "length (sent w1) = Suc (length (sent w))"
    using api_sent_length[of e "Get ''/onboarding/state''" w] w1 by simp
  have tok: "hasToken e w"
    using more by (auto simp: home_load_def router_def split: if_splits)
  show ?thesis
  proof (cases r)
    case (Inl err)
    then have "snd (home_load e w) = snd (home_catch err (HomePage, w1))"
      using tok w1
      by (simp add: home_load_def checkOnboardingAndLoad_def try_catch_finally_def
            checkOnboardingAndLoad_try_def io_bind_def call_def on_page_def)
    with more len show ?thesis by (simp add: home_catch_sent)
  next
    case (Inr d)
    show ?thesis
    proof (rule ccontr)
      assume neg: "\<not> ?thesis"
      with w1 Inr have a: "\<not> truthy (field (fst d) ''first_win_completed_at'')"
        and b: "field (fst d) ''current_step'' \<noteq> JStr ''completed''"
        by simp_all
      have "length (sent (snd (home_load e w))) = length (sent w1)"
        using tok w1 Inr a b
        by (auto simp: home_load_def checkOnboardingAndLoad_def try_catch_finally_def
              checkOnboardingAndLoad_try_def io_bind_def call_def on_page_def read_def
              io_return_def io_throw_def navigate_def router_def field_def home_catch_sent
            split: option.splits)
      with more len show False by simp
    qed
  qed
qed

lemma first_win_needs_completed_step:
  assumes "firstWin (fst (completeStep1 e runId s))" and "\<not> firstWin (fst s)"
  shows "\<not> isl (fst (api e (complete_step runId) (snd s)))"
proof (rule ccontr)
  assume "\<not> \<not> isl (fst (api e (complete_step runId) (snd s)))"
  then obtain err w1 where "api e (complete_step runId) (snd s) = (Inl err, w1)"
    by (cases "api e (complete_step runId) (snd s)") (auto simp: isl_def)
  then have "firstWin (fst (completeStep1 e runId s)) = firstWin (fst s)"
    by (simp add: completeStep1_def try_catch_finally_def completeStep1_try_def io_then_def
          io_bind_def call_def on_page_def show_error_def)
  with assms show False by simp
qed

lemma failed_step_sends_nothing_more:
  assumes "isl (fst (api e (complete_step runId) (snd s)))"
  shows "snd (completeStep1 e runId s) = snd (api e (complete_step runId) (snd s))"
proof -
  obtain err w1 where "api e (complete_step runId) (snd s) = (Inl err, w1)"
    using assms by (cases "api e (complete_step runId) (snd s)") (auto simp: isl_def)
  then show ?thesis
    by (simp add: completeStep1_def try_catch_finally_def completeStep1_try_def io_then_def
          io_bind_def call_def on_page_def show_error_def)
qed

lemma home_needs_token:
  "\<not> hasToken e w \<Longrightarrow>
     home_load e w = (HomePage, w\<lparr>navigations := navigations w @ [Replace ''/login'']\<rparr>)"
  by (simp add: home_load_def router_def)

text \<open>
  C6. On every load of \<open>/home\<close> (with a session token; without one the page goes to
  \<open>/login\<close> and asks nothing): when the onboarding state the backend returns has no
  \<open>first_win_completed_at\<close> and a \<open>current_step\<close> other than \<open>completed\<close>, the page redirects
  to \<open>/onboarding\<close> and has sent the state request only; in any load, a request beyond
  the state request (the forecast, the recommendations) is sent only when the state came
  back with \<open>first_win_completed_at\<close> set or \<open>current_step\<close> \<open>completed\<close>. On the run page,
  First Win is shown only after the call that completes a step has succeeded; when that
  call fails nothing more is sent, the advance to \<open>first_win\<close> included.
\<close>

theorem home_requires_first_win:
  "(\<not> hasToken e w \<longrightarrow>
      home_load e w = (HomePage, w\<lparr>navigations := navigations w @ [Replace ''/login'']\<rparr>))
   \<and> (hasToken e w
        \<and> fst (api e (Get ''/onboarding/state'') w) = Inr (JObj ps, rid)
        \<and> \<not> truthy (field (JObj ps) ''first_win_completed_at'')
        \<and> field (JObj ps) ''current_step'' \<noteq> JStr ''completed''
      \<longrightarrow> home_load e w =
            (HomePage\<lparr>loading := False\<rparr>,
             (snd (api e (Get ''/onboarding/state'') w))
               \<lparr>navigations := navigations w @ [Replace ''/onboarding'']\<rparr>))
   \<and> length (sent (snd (api e (Get ''/onboarding/state'') w))) = Suc (length (sent w))
   \<and> (Suc (length (sent w)) < length (sent (snd (home_load e w))) \<longrightarrow>
        (case fst (api e (Get ''/onboarding/state'') w) of
           Inl err \<Rightarrow> False
         | Inr r \<Rightarrow> truthy (field (fst r) ''first_win_completed_at'')
                    \<or> field (fst r) ''current_step'' = JStr ''completed''))
   \<and> (firstWin (fst (completeStep1 e runId s)) \<and> \<not> firstWin (fst s) \<longrightarrow>
        \<not> isl (fst (api e (complete_step runId) (snd s))))
   \<and> (isl (fst (api e (complete_step runId) (snd s))) \<longrightarrow>
        snd (completeStep1 e runId s) = snd (api e (complete_step runId) (snd s)))"
  using home_needs_token[of e w] home_gate_redirects[of e w ps rid]
    api_sent_length[of e "Get ''/onboarding/state''" w] home_loads_only_past_gate[of w e]
    first_win_needs_completed_step[of e runId s] failed_step_sends_nothing_more[of e runId s]
  by blast

theorem home_requires_first_win_witness:
  "home_load new_user signed_in =
     (HomePage\<lparr>loading := False\<rparr>,
      (snd (api new_user (Get ''/onboarding/state'') signed_in))
        \<lparr>navigations := [Replace ''/onboarding'']\<rparr>)
   \<and> map url (sent (snd (home_load new_user signed_in)))
       = [''https://api.finitii.test/onboarding/state'']
   \<and> home_load new_user fresh_world = (HomePage, fresh_world\<lparr>navigations := [Replace ''/login'']\<rparr>)
   \<and> truthy (field (fst (projr (fst (api first_win_user (Get ''/onboarding/state'') signed_in))))
               ''first_win_completed_at'')
   \<and> \<not> isl (fst (api new_user (complete_step ''9'') signed_in))
   \<and> snd (completeStep1 (browser (\<lambda>k. NetworkFailure)) ''9'' (RunPage, signed_in))
       = snd (api (browser (\<lambda>k. NetworkFailure)) (complete_step ''9'') signed_in)"
proof -
  have tok: "hasToken new_user signed_in"
    by code_simp
  have notok: "\<not> hasToken new_user fresh_world"
    by code_simp
  have st: "fst (api new_user (Get ''/onboarding/state'') signed_in)
              = Inr (JObj [(''current_step'', JStr ''consent''),
                           (''first_win_completed_at'', JNull), (''id'', JStr ''a1'')], None)"
    by code_simp
  have fld: "\<not> truthy (field (JObj [(''current_step'', JStr ''consent''),
                 (''first_win_completed_at'', JNull), (''id'', JStr ''a1'')])
                 ''first_win_completed_at'')"
       "field (JObj [(''current_step'', JStr ''consent''),
                 (''first_win_completed_at'', JNull), (''id'', JStr ''a1'')]) ''current_step''
          \<noteq> JStr ''completed''"
    by (simp_all add: field_def)
  have nav0: "navigations signed_in = []" "navigations fresh_world = []"
    by (simp_all add: signed_in_def fresh_world_def)
  have a: "home_load new_user signed_in =
     (HomePage\<lparr>loading := False\<rparr>,
      (snd (api new_user (Get ''/onboarding/state'') signed_in))
        \<lparr>navigations := [Replace ''/onboarding'']\<rparr>)"
    using home_requires_first_win[where e = new_user and w = signed_in and rid = None
            and ps = "[(''current_step'', JStr ''consent''),
                       (''first_win_completed_at'', JNull), (''id'', JStr ''a1'')]"]
          tok st fld nav0
    by simp
  have b: "map url (sent (snd (home_load new_user signed_in)))
             = [''https://api.finitii.test/onboarding/state'']"
    by code_simp
  have c: "home_load new_user fresh_world
             = (HomePage, fresh_world\<lparr>navigations := [Replace ''/login'']\<rparr>)"
    using home_requires_first_win[where e = new_user and w = fresh_world] notok nav0
    by simp
  have more: "Suc (length (sent signed_in)) < length (sent (snd (home_load first_win_user signed_in)))"
    by code_simp
  have ok1: "\<not> isl (fst (api first_win_user (Get ''/onboarding/state'') signed_in))"
    by code_simp
  have d: "truthy (field (fst (projr (fst (api first_win_user (Get ''/onboarding/state'') signed_in))))
               ''first_win_completed_at'')"
    by code_simp
  have won: "firstWin (fst (completeStep1 new_user ''9'' (RunPage, signed_in)))"
            "\<not> firstWin (fst (RunPage, signed_in))"
    by code_simp+
  have f: "\<not> isl (fst (api new_user (complete_step ''9'') signed_in))"
    using home_requires_first_win[where e = new_user and runId = "''9''"
            and s = "(RunPage, signed_in)"] won
    by simp
  have off: "isl (fst (api (browser (\<lambda>k. NetworkFailure)) (complete_step ''9'') signed_in))"
    by code_simp
  have g: "snd (completeStep1 (browser (\<lambda>k. NetworkFailure)) ''9'' (RunPage, signed_in))
       = snd (api (browser (\<lambda>k. NetworkFailure)) (complete_step ''9'') signed_in)"
    using home_requires_first_win[where e = "browser (\<lambda>k. NetworkFailure)" and runId = "''9''"
            and s = "(RunPage, signed_in)"] off
    by simp
  show ?thesis
    using a b c d f g by blast
qed

subsection \<open>The Top 3 ranking\<close>

lemma set_ensure_quick_win: "set (ensure_quick_win a b) \<subseteq> set a \<union> set b"
  by (auto simp: ensure_quick_win_def split: option.splits dest: in_set_butlastD
      simp: find_Some_iff)

lemma set_ranked: "set (ranked score cs) = set (eligible cs)"
  by (simp add: ranked_def)

lemma set_top3: "set (top3 score cs) \<subseteq> set (eligible cs)"
proof -
  have "set (top3 score cs) \<subseteq> set (take 3 (ranked score cs)) \<union> set (drop 3 (ranked score cs))"
    unfolding top3_def by (rule set_ensure_quick_win)
  also have "\<dots> \<subseteq> set (ranked score cs)"
    by (auto dest: in_set_takeD in_set_dropD)
  finally show ?thesis by (simp add: set_ranked)
qed

lemma eligible_idem: "eligible (eligible cs) = eligible cs"
  by (simp add: eligible_def)

lemma length_ensure: "length (ensure_quick_win a b) \<le> max (length a) 1"
  by (auto simp: ensure_quick_win_def split: option.splits)

text \<open>
  C1. No item of a Top 3 list has confidence low, whatever the ranking key (the urgency
  score at its maximum included): the low-confidence candidates are dropped before
  ranking, so the Top 3 of a candidate list is the Top 3 of its non-low candidates, and
  it has at most three items.
\<close>

theorem top3_never_low:
  "Low \<notin> set (map confidence (top3 score cs))
   \<and> top3 score cs = top3 score (eligible cs)
   \<and> length (top3 score cs) \<le> 3"
proof -
  have a: "Low \<notin> set (map confidence (top3 score cs))"
    using set_top3[of score cs] by (auto simp: eligible_def)
  have b: "top3 score cs = top3 score (eligible cs)"
    by (simp add: top3_def ranked_def eligible_idem)
  have c: "length (top3 score cs) \<le> 3"
    using length_ensure[of "take 3 (ranked score cs)" "drop 3 (ranked score cs)"]
    by (simp add: top3_def)
  show ?thesis using a b c by blast
qed

text \<open>
  A low-confidence quick win with the highest urgency stays out; the quick win that is
  eligible takes the third place.
\<close>

theorem top3_never_low_witness:
  "top3 by_urgency [cand ''a'' Low True 100, cand ''b'' High False 1, cand ''c'' Medium False 2,
                    cand ''d'' High False 3, cand ''e'' Medium True 0]
     = [cand ''d'' High False 3, cand ''c'' Medium False 2, cand ''e'' Medium True 0]
   \<and> Low \<notin> set (map confidence
         (top3 by_urgency [cand ''a'' Low True 100, cand ''b'' High False 1,
                           cand ''c'' Medium False 2, cand ''d'' High False 3,
                           cand ''e'' Medium True 0]))"
proof -
  have "top3 by_urgency [cand ''a'' Low True 100, cand ''b'' High False 1, cand ''c'' Medium False 2,
                    cand ''d'' High False 3, cand ''e'' Medium True 0]
     = [cand ''d'' High False 3, cand ''c'' Medium False 2, cand ''e'' Medium True 0]"
    by code_simp
  then show ?thesis
    using top3_never_low[of by_urgency "[cand ''a'' Low True 100, cand ''b'' High False 1,
            cand ''c'' Medium False 2, cand ''d'' High False 3, cand ''e'' Medium True 0]"]
    by blast
qed

end
